theory Spec2Isabelle
  imports
    Main
    "HOL-Library.Multiset"
    "HOL-Library.Char_ord"
    "HOL-Library.List_Lexorder"
    "HOL-Library.Word"
begin

section \<open>Go primitives used by the query layer\<close>

text \<open>
  Go's \<^verbatim>\<open>int\<close> and \<^verbatim>\<open>int64\<close> are 64-bit two's complement integers. They are modelled
  as \<^typ>\<open>int\<close>; where the source adds or multiplies, the wrap-around is written out
  with \<open>int64\<close>.
\<close>

definition int64 :: "int \<Rightarrow> int" where
  "int64 x = (x + 2 ^ 63) mod 2 ^ 64 - 2 ^ 63"

definition inInt64 :: "int \<Rightarrow> bool" where
  "inInt64 x \<longleftrightarrow> - (2 ^ 63) \<le> x \<and> x < 2 ^ 63"

text \<open>
  Strings are byte sequences, as in Go. \<^verbatim>\<open>strings.ToLower\<close> has a fast path for strings
  whose bytes are all below \<^verbatim>\<open>utf8.RuneSelf\<close> (0x80): it lowers the bytes \<^verbatim>\<open>'A'..'Z'\<close>.
  On any other string it maps every rune through the Unicode tables of the standard
  library; \<^verbatim>\<open>strings.EqualFold\<close> and \<^verbatim>\<open>time.Parse\<close> are library code as well. The parts
  of the standard library that are tables or parsers outside this repository are taken
  as parameters, collected in the record \<open>stdlib\<close>:
  \<^item> \<open>unicodeToLower s\<close>: the value of \<^verbatim>\<open>strings.ToLower(s)\<close> for \<open>s\<close> with a non-ASCII byte;
  \<^item> \<open>unicodeEqualFold s t\<close>: the value of \<^verbatim>\<open>strings.EqualFold(s, t)\<close> when \<open>s\<close> or \<open>t\<close> has
    a non-ASCII byte;
  \<^item> \<open>parseRFC3339 s\<close>: the instant (nanoseconds since the Unix epoch) that
    \<^verbatim>\<open>time.Parse(time.RFC3339, s)\<close> returns, \<open>None\<close> when it returns an error.
\<close>

record stdlib =
  unicodeToLower :: "string \<Rightarrow> string"
  unicodeEqualFold :: "string \<Rightarrow> string \<Rightarrow> bool"
  parseRFC3339 :: "string \<Rightarrow> int option"

definition isASCII :: "string \<Rightarrow> bool" where
  "isASCII s = list_all (\<lambda>c. (of_char c :: nat) < 128) s"

text \<open>
  \<^verbatim>\<open>c += 'a' - 'A'\<close> for a byte in \<^verbatim>\<open>'A'..'Z'\<close> (0x41 to 0x5A) sets bit 5 of the byte.
\<close>

definition lowerByte :: "char \<Rightarrow> char" where
  "lowerByte c =
     (if CHR ''A'' \<le> c \<and> c \<le> CHR ''Z''
      then (case c of Char b0 b1 b2 b3 b4 b5 b6 b7 \<Rightarrow> Char b0 b1 b2 b3 b4 True b6 b7)
      else c)"

definition strings_ToLower :: "stdlib \<Rightarrow> string \<Rightarrow> string" where
  "strings_ToLower lib s = (if isASCII s then map lowerByte s else unicodeToLower lib s)"

definition strings_EqualFold :: "stdlib \<Rightarrow> string \<Rightarrow> string \<Rightarrow> bool" where
  "strings_EqualFold lib s t =
     (if isASCII s \<and> isASCII t then map lowerByte s = map lowerByte t
      else unicodeEqualFold lib s t)"

fun strings_HasPrefix :: "string \<Rightarrow> string \<Rightarrow> bool" where
  "strings_HasPrefix s [] = True"
| "strings_HasPrefix [] (p # ps) = False"
| "strings_HasPrefix (c # cs) (p # ps) = (c = p \<and> strings_HasPrefix cs ps)"

fun strings_Contains :: "string \<Rightarrow> string \<Rightarrow> bool" where
  "strings_Contains [] substr = (substr = [])"
| "strings_Contains (c # cs) substr =
     (strings_HasPrefix (c # cs) substr \<or> strings_Contains cs substr)"

text \<open>
  \<^verbatim>\<open>strconv.ParseInt(s, 10, 64)\<close> and, on a 64-bit platform, \<^verbatim>\<open>strconv.Atoi(s)\<close>: an
  optional sign, then one or more decimal digits, and a value within the 64-bit range.
  Every error (syntax or range) is \<open>None\<close>; the callers only test \<^verbatim>\<open>err == nil\<close>.
\<close>

definition isDigit :: "char \<Rightarrow> bool" where
  "isDigit c \<longleftrightarrow> CHR ''0'' \<le> c \<and> c \<le> CHR ''9''"

fun digitsValue :: "int \<Rightarrow> string \<Rightarrow> int option" where
  "digitsValue acc [] = Some acc"
| "digitsValue acc (c # cs) =
     (if isDigit c then digitsValue (acc * 10 + (int (of_char c) - 48)) cs else None)"

definition strconv_ParseInt :: "string \<Rightarrow> int option" where
  "strconv_ParseInt s =
     (case s of
        [] \<Rightarrow> None
      | c # cs \<Rightarrow>
          (let neg = (c = CHR ''-'');
               ds = (if c = CHR ''-'' \<or> c = CHR ''+'' then cs else s)
           in if ds = [] then None
              else (case digitsValue 0 ds of
                      None \<Rightarrow> None
                    | Some v \<Rightarrow>
                        (let n = (if neg then - v else v)
                         in if inInt64 n then Some n else None))))"

definition strconv_Atoi :: "string \<Rightarrow> int option" where
  "strconv_Atoi s = strconv_ParseInt s"

text \<open>
  \<^verbatim>\<open>url.Values\<close> is \<^verbatim>\<open>map[string][]string\<close>; \<^verbatim>\<open>Get\<close> returns the first value of the key,
  or the empty string when there is none. A request is modelled by its query values.
\<close>

type_synonym Values = "string \<Rightarrow> string list option"

definition Values_Get :: "Values \<Rightarrow> string \<Rightarrow> string" where
  "Values_Get q key = (case q key of None \<Rightarrow> [] | Some [] \<Rightarrow> [] | Some (v # _) \<Rightarrow> v)"

text \<open>
  The slice expression \<^verbatim>\<open>s[lo:hi]\<close> panics unless \<^verbatim>\<open>0 <= lo <= hi <= cap(s)\<close>; the callers
  below have \<^verbatim>\<open>hi <= len(s)\<close>. A panic is the value \<open>None\<close>.
\<close>

definition goSlice :: "'a list \<Rightarrow> int \<Rightarrow> int \<Rightarrow> 'a list option" where
  "goSlice s lo hi =
     (if 0 \<le> lo \<and> lo \<le> hi \<and> hi \<le> int (length s)
      then Some (take (nat (hi - lo)) (drop (nat lo) s))
      else None)"

section \<open>Filter descriptors and their parsers\<close>

record PaginationParams =
  Offset :: int
  Limit :: int

definition ParsePaginationParams :: "Values \<Rightarrow> PaginationParams" where
  "ParsePaginationParams q =
     (let params = \<lparr>Offset = 0, Limit = 100\<rparr>;
          offset = Values_Get q ''offset'';
          params = (if offset \<noteq> []
                    then (case strconv_Atoi offset of
                            Some val \<Rightarrow> (if val \<ge> 0 then params\<lparr>Offset := val\<rparr> else params)
                          | None \<Rightarrow> params)
                    else params);
          limit = Values_Get q ''limit''
      in if limit \<noteq> []
         then (case strconv_Atoi limit of
                 Some val \<Rightarrow>
                   (if val > 0
                    then params\<lparr>Limit := (if val > 1000 then 1000 else val)\<rparr>
                    else params)
               | None \<Rightarrow> params)
         else params)"

text \<open>
  A \<^verbatim>\<open>time.Time\<close> is modelled by its instant, in nanoseconds since the Unix epoch (one
  instant per time: the wall clock and the monotonic clock reading of a time are not told
  apart); \<^verbatim>\<open>Before\<close> and \<^verbatim>\<open>After\<close> are the strict orders on instants. A nil pointer is
  \<open>None\<close>.
\<close>

definition Before :: "int \<Rightarrow> int \<Rightarrow> bool" where
  "Before t u \<longleftrightarrow> t < u"

definition After :: "int \<Rightarrow> int \<Rightarrow> bool" where
  "After t u \<longleftrightarrow> t > u"

record TimeRangeParams =
  StartTime :: "int option"
  EndTime :: "int option"

record TraceFilterParams =
  Service :: string
  Status :: string
  MinDuration :: "int option"
  MaxDuration :: "int option"
  TimeRange :: TimeRangeParams
  Pagination :: PaginationParams
  SortBy :: string
  SortOrder :: string

record LogFilterParams =
  logService :: string
  Severity :: string
  MinSeverity :: int
  Body :: string
  logTraceID :: string
  logTimeRange :: TimeRangeParams
  logPagination :: PaginationParams

record MetricFilterParams =
  metricService :: string
  MetricName :: string
  MetricType :: string
  metricTimeRange :: TimeRangeParams
  metricPagination :: PaginationParams

text \<open>
  \<^verbatim>\<open>time.Unix(0, unix*1000000)\<close> and \<^verbatim>\<open>time.Duration(val) * time.Millisecond\<close> multiply
  in \<^verbatim>\<open>int64\<close>. \<^verbatim>\<open>ParseTimeRangeParams\<close> has the same block for \<^verbatim>\<open>start_time\<close> and for
  \<^verbatim>\<open>end_time\<close>, which is \<open>parseTimeValue\<close> here; \<^verbatim>\<open>ParseTraceFilterParams\<close> has the same
  block for \<^verbatim>\<open>min_duration_ms\<close> and for \<^verbatim>\<open>max_duration_ms\<close>, which is \<open>parseDurationMs\<close>.
\<close>

definition parseTimeValue :: "stdlib \<Rightarrow> string \<Rightarrow> int option" where
  "parseTimeValue lib v =
     (if v \<noteq> []
      then (case parseRFC3339 lib v of
              Some t \<Rightarrow> Some t
            | None \<Rightarrow>
                (case strconv_ParseInt v of
                   Some unix \<Rightarrow> Some (int64 (unix * 1000000))
                 | None \<Rightarrow> None))
      else None)"

definition ParseTimeRangeParams :: "stdlib \<Rightarrow> Values \<Rightarrow> TimeRangeParams" where
  "ParseTimeRangeParams lib q =
     \<lparr>StartTime = parseTimeValue lib (Values_Get q ''start_time''),
      EndTime = parseTimeValue lib (Values_Get q ''end_time'')\<rparr>"

definition parseDurationMs :: "string \<Rightarrow> int option" where
  "parseDurationMs v =
     (if v \<noteq> []
      then (case strconv_ParseInt v of
              Some val \<Rightarrow> Some (int64 (val * 1000000))
            | None \<Rightarrow> None)
      else None)"

definition ParseTraceFilterParams :: "stdlib \<Rightarrow> Values \<Rightarrow> TraceFilterParams" where
  "ParseTraceFilterParams lib q =
     (let sortBy = strings_ToLower lib (Values_Get q ''sort_by'');
          sortOrder = strings_ToLower lib (Values_Get q ''sort_order'')
      in \<lparr>Service = Values_Get q ''service'',
          Status = strings_ToLower lib (Values_Get q ''status''),
          MinDuration = parseDurationMs (Values_Get q ''min_duration_ms''),
          MaxDuration = parseDurationMs (Values_Get q ''max_duration_ms''),
          TimeRange = ParseTimeRangeParams lib q,
          Pagination = ParsePaginationParams q,
          SortBy = (if sortBy = [] then ''time'' else sortBy),
          SortOrder = (if sortOrder = [] then ''desc'' else sortOrder)\<rparr>)"

definition severityNameToNumber :: "stdlib \<Rightarrow> string \<Rightarrow> int" where
  "severityNameToNumber lib name =
     (let n = strings_ToLower lib name
      in if n = ''trace'' then 1
         else if n = ''debug'' then 5
         else if n = ''info'' then 9
         else if n = ''warn'' then 13
         else if n = ''error'' then 17
         else if n = ''fatal'' then 21
         else 0)"

definition ParseLogFilterParams :: "stdlib \<Rightarrow> Values \<Rightarrow> LogFilterParams" where
  "ParseLogFilterParams lib q =
     (let minSev = Values_Get q ''min_severity''
      in \<lparr>logService = Values_Get q ''service'',
          Severity = strings_ToLower lib (Values_Get q ''severity''),
          MinSeverity = (if minSev \<noteq> [] then severityNameToNumber lib minSev else 0),
          Body = Values_Get q ''body'',
          logTraceID = Values_Get q ''trace_id'',
          logTimeRange = ParseTimeRangeParams lib q,
          logPagination = ParsePaginationParams q\<rparr>)"


section \<open>Records of the store\<close>

text \<open>
  Modelled from the spec: the types \<^verbatim>\<open>telemetry.SpanData\<close>, \<^verbatim>\<open>telemetry.LogData\<close>,
  \<^verbatim>\<open>telemetry.MetricData\<close> and \<^verbatim>\<open>telemetry.Store\<close> are declared in the package
  \<^verbatim>\<open>internal/telemetry\<close>, which is not among the sources. A record holds what the handlers
  read through the accessors:
  \<^item> span: \<^verbatim>\<open>GetServiceName()\<close>, \<^verbatim>\<open>GetSpanName()\<close>, \<^verbatim>\<open>Span.SpanID().String()\<close>,
    \<^verbatim>\<open>Span.ParentSpanID().String()\<close>, \<^verbatim>\<open>Span.TraceID().String()\<close>, \<^verbatim>\<open>Span.Status().Code()\<close>,
    \<^verbatim>\<open>Span.StartTimestamp()\<close>, \<^verbatim>\<open>Span.EndTimestamp()\<close> (unsigned 64-bit nanoseconds) and
    \<^verbatim>\<open>ReceivedAt\<close>;
  \<^item> log: \<^verbatim>\<open>GetServiceName()\<close>, \<^verbatim>\<open>GetSeverity()\<close>, \<^verbatim>\<open>Log.SeverityNumber()\<close>,
    \<^verbatim>\<open>GetResolvedBody()\<close>, \<^verbatim>\<open>GetTraceID()\<close>, \<^verbatim>\<open>Log.Timestamp()\<close>;
  \<^item> metric: \<^verbatim>\<open>GetServiceName()\<close>, \<^verbatim>\<open>GetMetricName()\<close>, \<^verbatim>\<open>GetMetricTypeText()\<close>, \<^verbatim>\<open>ReceivedAt\<close>.
  An id is held in its \<^verbatim>\<open>String()\<close> form: the hexadecimal text, and the empty string exactly
  for the all-zero id, for which \<^verbatim>\<open>IsEmpty()\<close> is true.
\<close>

datatype StatusCode = StatusCodeUnset | StatusCodeOk | StatusCodeError

record SpanData =
  spanServiceName :: string
  spanName :: string
  spanID :: string
  parentSpanID :: string
  spanTraceID :: string
  statusCode :: StatusCode
  startTimestamp :: "64 word"
  endTimestamp :: "64 word"
  ReceivedAt :: int

record LogData =
  ldServiceName :: string
  ldSeverity :: string
  ldSeverityNumber :: int
  ldResolvedBody :: string
  ldTraceID :: string
  ldTimestamp :: "64 word"

record MetricData =
  mdServiceName :: string
  mdMetricName :: string
  mdMetricTypeText :: string
  mdReceivedAt :: int

text \<open>
  \<^verbatim>\<open>Timestamp.AsTime()\<close> is \<^verbatim>\<open>time.Unix(0, int64(ts))\<close>: the 64 bits read as a signed number
  of nanoseconds. \<^verbatim>\<open>Time.Sub\<close> returns the difference as a \<^verbatim>\<open>Duration\<close> (an \<^verbatim>\<open>int64\<close>) and
  saturates at the least and the greatest duration.
\<close>

definition AsTime :: "64 word \<Rightarrow> int" where
  "AsTime ts = sint ts"

definition Sub :: "int \<Rightarrow> int \<Rightarrow> int" where
  "Sub t u = max (- (2 ^ 63)) (min (2 ^ 63 - 1) (t - u))"

definition spanDuration :: "SpanData \<Rightarrow> int" where
  "spanDuration span = Sub (AsTime (endTimestamp span)) (AsTime (startTimestamp span))"

text \<open>
  Modelled from the spec: the store (\<^verbatim>\<open>telemetry.Store\<close>) and its three caches, as the
  values its accessors return. \<open>GetFilteredMetrics\<close> and \<open>GetFilteredLogs\<close> are the slices
  returned after \<^verbatim>\<open>ApplyFilterMetrics("")\<close> and \<^verbatim>\<open>ApplyFilterLogs("")\<close> (an empty query
  returns all records in insertion order), and \<open>FilteredMetricsFor q\<close> is the slice that
  \<^verbatim>\<open>GetFilteredMetrics()\<close> returns after \<^verbatim>\<open>ApplyFilterMetrics(q)\<close>. \<open>GetSpanByID\<close>,
  \<open>GetSpansByTraceID\<close> and \<open>GetSpansByTraceIDAndSvc\<close> are the lookups of the trace cache,
  \<open>GetMetricsBySvcAndMetricName\<close> the lookup of the metric cache and \<open>GetLogsByTraceID\<close> the
  lookup of the log cache, an absent key being \<open>None\<close>. \<open>UpdatedAt\<close> is the instant of the
  last ingestion.
\<close>

record Store =
  GetSvcSpans :: "SpanData list"
  GetFilteredMetrics :: "MetricData list"
  GetFilteredLogs :: "LogData list"
  GetSpanByID :: "string \<Rightarrow> SpanData option"
  GetSpansByTraceID :: "string \<Rightarrow> SpanData list option"
  GetSpansByTraceIDAndSvc :: "string \<Rightarrow> string \<Rightarrow> SpanData list option"
  FilteredMetricsFor :: "string \<Rightarrow> MetricData list"
  GetMetricsBySvcAndMetricName :: "string \<Rightarrow> string \<Rightarrow> MetricData list option"
  GetLogsByTraceID :: "string \<Rightarrow> LogData list option"
  UpdatedAt :: int




section \<open>The filter, sort and paginate engine\<close>

definition matchesSpanFilters :: "stdlib \<Rightarrow> SpanData \<Rightarrow> TraceFilterParams \<Rightarrow> bool" where
  "matchesSpanFilters lib span params =
     (if Service params \<noteq> [] \<and>
         \<not> strings_Contains
              (strings_ToLower lib (spanServiceName span @ '' '' @ spanName span))
              (strings_ToLower lib (Service params))
      then False
      else if Status params \<noteq> [] \<and>
         (if Status params = ''ok'' then statusCode span \<noteq> StatusCodeOk
          else if Status params = ''error'' then statusCode span \<noteq> StatusCodeError
          else if Status params = ''unset'' then statusCode span \<noteq> StatusCodeUnset
          else False)
      then False
      else if (case MinDuration params of Some d \<Rightarrow> spanDuration span < d | None \<Rightarrow> False)
      then False
      else if (case MaxDuration params of Some d \<Rightarrow> spanDuration span > d | None \<Rightarrow> False)
      then False
      else if (case StartTime (TimeRange params) of
                 Some t \<Rightarrow> Before (ReceivedAt span) t | None \<Rightarrow> False)
      then False
      else if (case EndTime (TimeRange params) of
                 Some t \<Rightarrow> After (ReceivedAt span) t | None \<Rightarrow> False)
      then False
      else True)"

text \<open>
  The three sort functions of the source are the same pair of nested loops
  \<^verbatim>\<open>for i := 0; i < len(spans); i++ { for j := i + 1; j < len(spans); j++ { ... } }\<close>
  around a different test \<open>swap\<close>; when the test holds of \<^verbatim>\<open>spans[i]\<close> and \<^verbatim>\<open>spans[j]\<close> the
  two elements are exchanged. \<open>swapLoopInner\<close> is the loop over \<open>j\<close>, \<open>swapLoopOuter\<close> the
  loop over \<open>i\<close>.
\<close>

function swapLoopInner :: "('a \<Rightarrow> 'a \<Rightarrow> bool) \<Rightarrow> nat \<Rightarrow> nat \<Rightarrow> 'a list \<Rightarrow> 'a list" where
  "swapLoopInner swap i j spans =
     (if j < length spans
      then swapLoopInner swap i (j + 1)
             (if swap (spans ! i) (spans ! j)
              then spans[i := spans ! j, j := spans ! i]
              else spans)
      else spans)"
  by pat_completeness auto
termination
  by (relation "measure (\<lambda>(swap, i, j, spans). length spans - j)") auto

declare swapLoopInner.simps [simp del]

lemma length_swapLoopInner [simp]: "length (swapLoopInner swap i j spans) = length spans"
  by (induction swap i j spans rule: swapLoopInner.induct)
     (subst swapLoopInner.simps, simp)

function swapLoopOuter :: "('a \<Rightarrow> 'a \<Rightarrow> bool) \<Rightarrow> nat \<Rightarrow> 'a list \<Rightarrow> 'a list" where
  "swapLoopOuter swap i spans =
     (if i < length spans
      then swapLoopOuter swap (i + 1) (swapLoopInner swap i (i + 1) spans)
      else spans)"
  by pat_completeness auto
termination
  by (relation "measure (\<lambda>(swap, i, spans). length spans - i)") auto

declare swapLoopOuter.simps [simp del]

definition sortSpansByTime :: "SpanData list \<Rightarrow> bool \<Rightarrow> SpanData list" where
  "sortSpansByTime spans ascending =
     swapLoopOuter
       (\<lambda>a b. if ascending then After (ReceivedAt a) (ReceivedAt b)
              else Before (ReceivedAt a) (ReceivedAt b))
       0 spans"

definition sortSpansByDuration :: "SpanData list \<Rightarrow> bool \<Rightarrow> SpanData list" where
  "sortSpansByDuration spans ascending =
     swapLoopOuter
       (\<lambda>a b. if ascending then spanDuration a > spanDuration b
              else spanDuration a < spanDuration b)
       0 spans"

text \<open>Go compares strings bytewise, in lexicographic order.\<close>

definition sortSpansByName :: "SpanData list \<Rightarrow> bool \<Rightarrow> SpanData list" where
  "sortSpansByName spans ascending =
     swapLoopOuter
       (\<lambda>a b. if ascending then spanName a > spanName b else spanName a < spanName b)
       0 spans"

definition sortSpans :: "SpanData list \<Rightarrow> string \<Rightarrow> string \<Rightarrow> SpanData list" where
  "sortSpans spans sortBy sortOrder =
     (let ascending = (sortOrder = ''asc'')
      in if sortBy = ''duration'' then sortSpansByDuration spans ascending
         else if sortBy = ''name'' then sortSpansByName spans ascending
         else sortSpansByTime spans ascending)"

definition paginateSpans :: "SpanData list \<Rightarrow> PaginationParams \<Rightarrow> SpanData list option" where
  "paginateSpans spans pagination =
     (if Offset pagination \<ge> int (length spans) then Some []
      else (let end = int64 (Offset pagination + Limit pagination);
                end = (if end > int (length spans) then int (length spans) else end)
            in goSlice spans (Offset pagination) end))"

text \<open>
  The loop of \<^verbatim>\<open>FilterSpans\<close> appends, in order, the spans that match; then the slice is
  sorted and paginated.
\<close>

definition FilterSpans :: "stdlib \<Rightarrow> SpanData list \<Rightarrow> TraceFilterParams \<Rightarrow> SpanData list option" where
  "FilterSpans lib spans params =
     (let filtered = filter (\<lambda>span. matchesSpanFilters lib span params) spans;
          filtered = sortSpans filtered (SortBy params) (SortOrder params)
      in paginateSpans filtered (Pagination params))"

definition matchesLogFilters :: "stdlib \<Rightarrow> LogData \<Rightarrow> LogFilterParams \<Rightarrow> bool" where
  "matchesLogFilters lib log params =
     (if logService params \<noteq> [] \<and>
         \<not> strings_Contains (strings_ToLower lib (ldServiceName log))
              (strings_ToLower lib (logService params))
      then False
      else if Severity params \<noteq> [] \<and>
         \<not> strings_Contains (strings_ToLower lib (ldSeverity log))
              (strings_ToLower lib (Severity params))
      then False
      else if MinSeverity params > 0 \<and> ldSeverityNumber log < MinSeverity params
      then False
      else if Body params \<noteq> [] \<and>
         \<not> strings_Contains (strings_ToLower lib (ldResolvedBody log))
              (strings_ToLower lib (Body params))
      then False
      else if logTraceID params \<noteq> [] \<and> ldTraceID log \<noteq> logTraceID params
      then False
      else if (case StartTime (logTimeRange params) of
                 Some t \<Rightarrow> Before (AsTime (ldTimestamp log)) t | None \<Rightarrow> False)
      then False
      else if (case EndTime (logTimeRange params) of
                 Some t \<Rightarrow> After (AsTime (ldTimestamp log)) t | None \<Rightarrow> False)
      then False
      else True)"

definition paginateLogs :: "LogData list \<Rightarrow> PaginationParams \<Rightarrow> LogData list option" where
  "paginateLogs logs pagination =
     (if Offset pagination \<ge> int (length logs) then Some []
      else (let end = int64 (Offset pagination + Limit pagination);
                end = (if end > int (length logs) then int (length logs) else end)
            in goSlice logs (Offset pagination) end))"

definition FilterLogs :: "stdlib \<Rightarrow> LogData list \<Rightarrow> LogFilterParams \<Rightarrow> LogData list option" where
  "FilterLogs lib logs params =
     paginateLogs (filter (\<lambda>log. matchesLogFilters lib log params) logs) (logPagination params)"

definition matchesMetricFilters :: "stdlib \<Rightarrow> MetricData \<Rightarrow> MetricFilterParams \<Rightarrow> bool" where
  "matchesMetricFilters lib metric params =
     (if metricService params \<noteq> [] \<and>
         \<not> strings_Contains
              (strings_ToLower lib (mdServiceName metric @ '' '' @ mdMetricName metric))
              (strings_ToLower lib (metricService params))
      then False
      else if MetricName params \<noteq> [] \<and>
         \<not> strings_Contains (strings_ToLower lib (mdMetricName metric))
              (strings_ToLower lib (MetricName params))
      then False
      else if MetricType params \<noteq> [] \<and>
         \<not> strings_EqualFold lib (mdMetricTypeText metric) (MetricType params)
      then False
      else if (case StartTime (metricTimeRange params) of
                 Some t \<Rightarrow> Before (mdReceivedAt metric) t | None \<Rightarrow> False)
      then False
      else if (case EndTime (metricTimeRange params) of
                 Some t \<Rightarrow> After (mdReceivedAt metric) t | None \<Rightarrow> False)
      then False
      else True)"



section \<open>The handlers\<close>

text \<open>
  A response is modelled before its serialization: the pagination headers by the integers
  that \<^verbatim>\<open>strconv.Itoa\<close> renders, a body by the value handed to the JSON encoder
  (\<^verbatim>\<open>SpanDataToJSON\<close> converts the spans one by one, in order). The encoder writes the
  elements of a slice in the order of the slice, so two slices that differ in order are two
  different bodies.
\<close>

record TracesResponse =
  XTotalCount :: int
  XFilteredCount :: int
  XOffset :: int
  XLimit :: int
  result :: "SpanData list"

definition handleGetTraces :: "stdlib \<Rightarrow> Store \<Rightarrow> Values \<Rightarrow> TracesResponse option" where
  "handleGetTraces lib store q =
     (let filterParams = ParseTraceFilterParams lib q;
          spans = GetSvcSpans store
      in (case FilterSpans lib spans filterParams of
            None \<Rightarrow> None
          | Some filtered \<Rightarrow>
              Some \<lparr>XTotalCount = int (length spans),
                    XFilteredCount = int (length filtered),
                    XOffset = Offset (Pagination filterParams),
                    XLimit = Limit (Pagination filterParams),
                    result = filtered\<rparr>))"

text \<open>
  A Go map is a finite map. The language leaves the order of \<^verbatim>\<open>for k := range m\<close>
  unspecified, and the runtime starts every such loop at a random position, so a program
  cannot rely on any order: a loop that appends the keys to a slice is modelled as
  producing any enumeration of the keys without repetition. \<open>rangeKeys m ks\<close> says that
  \<open>ks\<close> is such an enumeration of the keys of \<open>m\<close>, and \<open>rangeEntries m kvs\<close> that \<open>kvs\<close> is
  such an enumeration of its entries. A handler that ranges over a map is modelled by the
  set of the responses that the language allows it.
\<close>

definition rangeKeys :: "('k \<Rightarrow> 'v option) \<Rightarrow> 'k list \<Rightarrow> bool" where
  "rangeKeys m ks \<longleftrightarrow> distinct ks \<and> set ks = dom m"


text \<open>The loop \<^verbatim>\<open>for _, span := range spans { serviceSet[span.GetServiceName()] = true }\<close>.\<close>

definition spanServiceSet :: "SpanData list \<Rightarrow> (string \<Rightarrow> bool option) \<Rightarrow> (string \<Rightarrow> bool option)" where
  "spanServiceSet spans serviceSet =
     fold (\<lambda>span serviceSet. serviceSet(spanServiceName span \<mapsto> True)) spans serviceSet"



record TopologyNodeJSON =
  nodeService :: string
  Depth :: int

record TopologyEdgeJSON =
  Source :: string
  Target :: string
  Count :: int


text \<open>
  One iteration of the loop of \<^verbatim>\<open>buildTopology\<close> over the spans, on the two maps \<open>nodes\<close>
  and \<open>edges\<close>. The parent id is read in its \<^verbatim>\<open>String()\<close> form, which is empty exactly when
  \<^verbatim>\<open>IsEmpty()\<close> holds, so the guard \<^verbatim>\<open>parentSpanID != "" && !span.ParentSpanID().IsEmpty()\<close> is
  \<open>parentSpanID spanData \<noteq> []\<close>. \<^verbatim>\<open>Count\<close> is incremented at most once per span.
\<close>

definition topologyStep ::
    "(string \<Rightarrow> SpanData option) \<Rightarrow> SpanData \<Rightarrow>
     (string \<Rightarrow> TopologyNodeJSON option) \<times> (string \<Rightarrow> TopologyEdgeJSON option) \<Rightarrow>
     (string \<Rightarrow> TopologyNodeJSON option) \<times> (string \<Rightarrow> TopologyEdgeJSON option)" where
  "topologyStep cache spanData = (\<lambda>(nodes, edges).
     (let serviceName = spanServiceName spanData;
          nodes = (if nodes serviceName = None
                   then nodes(serviceName \<mapsto> \<lparr>nodeService = serviceName, Depth = 0\<rparr>)
                   else nodes)
      in if parentSpanID spanData \<noteq> []
         then (case cache (parentSpanID spanData) of
                 Some parentSpan \<Rightarrow>
                   (let parentServiceName = spanServiceName parentSpan
                    in if parentServiceName \<noteq> serviceName
                       then (let edgeKey = parentServiceName @ ''->'' @ serviceName;
                                 nodes = (if nodes parentServiceName = None
                                          then nodes(parentServiceName \<mapsto>
                                                 \<lparr>nodeService = parentServiceName, Depth = 0\<rparr>)
                                          else nodes);
                                 edges = (case edges edgeKey of
                                            Some edge \<Rightarrow>
                                              edges(edgeKey \<mapsto> edge\<lparr>Count := Count edge + 1\<rparr>)
                                          | None \<Rightarrow>
                                              edges(edgeKey \<mapsto>
                                                \<lparr>Source = parentServiceName,
                                                 Target = serviceName, Count = 1\<rparr>))
                             in (nodes, edges))
                       else (nodes, edges))
               | None \<Rightarrow> (nodes, edges))
         else (nodes, edges)))"

definition topologyMaps ::
    "Store \<Rightarrow> (string \<Rightarrow> TopologyNodeJSON option) \<times> (string \<Rightarrow> TopologyEdgeJSON option)" where
  "topologyMaps store =
     fold (topologyStep (GetSpanByID store)) (GetSvcSpans store) (Map.empty, Map.empty)"


definition handleGetServices :: "Store \<Rightarrow> string list set" where
  "handleGetServices store =
     {services. rangeKeys (spanServiceSet (GetSvcSpans store) Map.empty) services}"

definition getServicesByMetrics :: "Store \<Rightarrow> string list set" where
  "getServicesByMetrics store =
     {services.
        rangeKeys
          (fold (\<lambda>metric serviceSet. serviceSet(mdServiceName metric \<mapsto> True))
             (GetFilteredMetrics store) Map.empty)
          services}"

definition getServicesByLogs :: "Store \<Rightarrow> string list set" where
  "getServicesByLogs store =
     {services.
        rangeKeys
          (fold (\<lambda>log serviceSet. serviceSet(ldServiceName log \<mapsto> True))
             (GetFilteredLogs store) Map.empty)
          services}"

text \<open>
  \<^verbatim>\<open>getAllServices\<close> ranges over the result of the two functions above, then over its own
  map, keeping the keys that are not empty and do not contain \<^verbatim>\<open>"unknown"\<close>. No handler
  calls it.
\<close>

definition getAllServices :: "Store \<Rightarrow> string list set" where
  "getAllServices store =
     {filter (\<lambda>service. service \<noteq> [] \<and> \<not> strings_Contains service ''unknown'') keys
      | keys byMetrics byLogs.
        byMetrics \<in> getServicesByMetrics store \<and> byLogs \<in> getServicesByLogs store \<and>
        rangeKeys
          (fold (\<lambda>service serviceSet. serviceSet(service \<mapsto> True)) byLogs
             (fold (\<lambda>service serviceSet. serviceSet(service \<mapsto> True)) byMetrics
                (spanServiceSet (GetSvcSpans store) Map.empty)))
          keys}"















section \<open>Definitions that state the properties\<close>

text \<open>
  A standard library for concrete inputs: the Unicode paths are never taken on ASCII
  strings, and no value is read as RFC3339.
\<close>

definition testLib :: stdlib where
  "testLib = \<lparr>unicodeToLower = (\<lambda>s. s), unicodeEqualFold = (\<lambda>s t. s = t),
              parseRFC3339 = (\<lambda>s. None)\<rparr>"

text \<open>
  The value of a pagination parameter as the specification reads it: none when the
  parameter is absent or does not parse as an integer.
\<close>

definition specPaginationValue :: "Values \<Rightarrow> string \<Rightarrow> int option" where
  "specPaginationValue q key =
     (case q key of None \<Rightarrow> None | Some [] \<Rightarrow> None | Some (v # _) \<Rightarrow> strconv_Atoi v)"

text \<open>
  Two bytes are the same letter when they are equal or are the upper-case and the
  lower-case form of one ASCII letter; two names are equal ignoring case when they are so
  byte by byte. \<open>specSeverityNumber\<close> is the table of the specification.
\<close>

definition sameLetter :: "char \<Rightarrow> char \<Rightarrow> bool" where
  "sameLetter a b \<longleftrightarrow>
     a = b \<or>
     (CHR ''A'' \<le> a \<and> a \<le> CHR ''Z'' \<and> (of_char b :: nat) = of_char a + 32) \<or>
     (CHR ''A'' \<le> b \<and> b \<le> CHR ''Z'' \<and> (of_char a :: nat) = of_char b + 32)"

definition equalIgnoringCase :: "string \<Rightarrow> string \<Rightarrow> bool" where
  "equalIgnoringCase s t = list_all2 sameLetter s t"

definition specSeverityNumber :: "string \<Rightarrow> int" where
  "specSeverityNumber name =
     (if equalIgnoringCase name ''trace'' then 1
      else if equalIgnoringCase name ''debug'' then 5
      else if equalIgnoringCase name ''info'' then 9
      else if equalIgnoringCase name ''warn'' then 13
      else if equalIgnoringCase name ''error'' then 17
      else if equalIgnoringCase name ''fatal'' then 21
      else 0)"

definition lowerLetter :: "char \<Rightarrow> bool" where
  "lowerLetter b \<longleftrightarrow> CHR ''a'' \<le> b \<and> b \<le> CHR ''z''"

text \<open>
  A closed time range: an absent bound does not constrain, a present bound is met with
  equality allowed.
\<close>

definition inTimeRange :: "int \<Rightarrow> TimeRangeParams \<Rightarrow> bool" where
  "inTimeRange t tr =
     ((case StartTime tr of None \<Rightarrow> True | Some s \<Rightarrow> s \<le> t) \<and>
      (case EndTime tr of None \<Rightarrow> True | Some e \<Rightarrow> t \<le> e))"

definition noTimeRange :: TimeRangeParams where
  "noTimeRange = \<lparr>StartTime = None, EndTime = None\<rparr>"

text \<open>
  What the proofs about the sort loops need of a test \<open>swap\<close>: it never holds in both
  directions, and "need not be exchanged" is transitive. \<open>placed swap i xs\<close> is the
  invariant of the outer loop: no position before \<open>i\<close> is to be exchanged with a later one.
\<close>

definition swapTotal :: "('a \<Rightarrow> 'a \<Rightarrow> bool) \<Rightarrow> bool" where
  "swapTotal swap \<longleftrightarrow> (\<forall>a b. swap a b \<longrightarrow> \<not> swap b a)"

definition swapTrans :: "('a \<Rightarrow> 'a \<Rightarrow> bool) \<Rightarrow> bool" where
  "swapTrans swap \<longleftrightarrow> (\<forall>a b c. \<not> swap a b \<longrightarrow> \<not> swap b c \<longrightarrow> \<not> swap a c)"

definition placed :: "('a \<Rightarrow> 'a \<Rightarrow> bool) \<Rightarrow> nat \<Rightarrow> 'a list \<Rightarrow> bool" where
  "placed swap i xs \<longleftrightarrow> (\<forall>a b. a < i \<and> a < b \<and> b < length xs \<longrightarrow> \<not> swap (xs ! a) (xs ! b))"

text \<open>
  A list is sorted by a key: in non-decreasing order of the key when ascending, in
  non-increasing order otherwise. \<open>keySwap\<close> is the test of a sort function of the source
  for a key, and \<open>sortTest\<close> the test that \<^verbatim>\<open>sortSpans\<close> selects.
\<close>

definition sortedByKey :: "('a \<Rightarrow> 'k::linorder) \<Rightarrow> bool \<Rightarrow> 'a list \<Rightarrow> bool" where
  "sortedByKey key ascending xs =
     (if ascending then sorted (map key xs) else sorted (rev (map key xs)))"

definition keySwap :: "('a \<Rightarrow> 'k::linorder) \<Rightarrow> bool \<Rightarrow> 'a \<Rightarrow> 'a \<Rightarrow> bool" where
  "keySwap key ascending a b = (if ascending then key a > key b else key a < key b)"

definition sortTest :: "string \<Rightarrow> string \<Rightarrow> SpanData \<Rightarrow> SpanData \<Rightarrow> bool" where
  "sortTest sortBy sortOrder =
     (if sortBy = ''duration'' then keySwap spanDuration (sortOrder = ''asc'')
      else if sortBy = ''name'' then keySwap spanName (sortOrder = ''asc'')
      else keySwap ReceivedAt (sortOrder = ''asc''))"

text \<open>
  The tie-break of the specification: of two spans with equal keys, the one received later
  comes first.
\<close>

definition tiesByReceivedAtDescending :: "(SpanData \<Rightarrow> 'k) \<Rightarrow> SpanData list \<Rightarrow> bool" where
  "tiesByReceivedAtDescending key xs =
     sorted_wrt (\<lambda>a b. if key a = key b then ReceivedAt a \<ge> ReceivedAt b else True) xs"

text \<open>
  Concrete inputs: a span of a service, with a name, an id, a parent id and a received-at
  instant; status unset and both timestamps 0.
\<close>

definition exampleSpan :: "string \<Rightarrow> string \<Rightarrow> string \<Rightarrow> string \<Rightarrow> int \<Rightarrow> SpanData" where
  "exampleSpan service name sid parent received =
     \<lparr>spanServiceName = service, spanName = name, spanID = sid, parentSpanID = parent,
      spanTraceID = ''t1'', statusCode = StatusCodeUnset, startTimestamp = 0,
      endTimestamp = 0, ReceivedAt = received\<rparr>"

text \<open>
  The descriptor that \<^verbatim>\<open>ParseTraceFilterParams\<close> returns for a query with no filter: every
  predicate disabled, key \<^verbatim>\<open>"time"\<close>, order \<^verbatim>\<open>"desc"\<close>, and the given offset and limit.
\<close>

definition exampleParams :: "int \<Rightarrow> int \<Rightarrow> TraceFilterParams" where
  "exampleParams offset limit =
     \<lparr>Service = [], Status = [], MinDuration = None, MaxDuration = None,
      TimeRange = noTimeRange, Pagination = \<lparr>Offset = offset, Limit = limit\<rparr>,
      SortBy = ''time'', SortOrder = ''desc''\<rparr>"

definition threeSpans :: "SpanData list" where
  "threeSpans =
     [exampleSpan ''front'' ''a'' ''01'' [] 1,
      exampleSpan ''back'' ''b'' ''02'' [] 2,
      exampleSpan ''db'' ''c'' ''03'' [] 3]"

definition exampleLog :: "string \<Rightarrow> int \<Rightarrow> LogData" where
  "exampleLog service severity =
     \<lparr>ldServiceName = service, ldSeverity = [], ldSeverityNumber = severity,
      ldResolvedBody = [], ldTraceID = [], ldTimestamp = 0\<rparr>"

definition exampleMetric :: "string \<Rightarrow> string \<Rightarrow> int \<Rightarrow> MetricData" where
  "exampleMetric service name received =
     \<lparr>mdServiceName = service, mdMetricName = name, mdMetricTypeText = ''Gauge'',
      mdReceivedAt = received\<rparr>"

text \<open>
  The filter descriptors that a query with no parameter other than the time range parses
  to: every other predicate is disabled, so that the filter is driven by the time range
  alone. \<open>logMinSeverityOnly\<close> is the descriptor of a query with no parameter other than
  the minimum severity.
\<close>

definition traceTimeOnly :: "TimeRangeParams \<Rightarrow> TraceFilterParams" where
  "traceTimeOnly tr =
     \<lparr>Service = [], Status = [], MinDuration = None, MaxDuration = None, TimeRange = tr,
      Pagination = \<lparr>Offset = 0, Limit = 100\<rparr>, SortBy = ''time'', SortOrder = ''desc''\<rparr>"

definition logTimeOnly :: "TimeRangeParams \<Rightarrow> LogFilterParams" where
  "logTimeOnly tr =
     \<lparr>logService = [], Severity = [], MinSeverity = 0, Body = [], logTraceID = [],
      logTimeRange = tr, logPagination = \<lparr>Offset = 0, Limit = 100\<rparr>\<rparr>"

definition metricTimeOnly :: "TimeRangeParams \<Rightarrow> MetricFilterParams" where
  "metricTimeOnly tr =
     \<lparr>metricService = [], MetricName = [], MetricType = [], metricTimeRange = tr,
      metricPagination = \<lparr>Offset = 0, Limit = 100\<rparr>\<rparr>"

definition logMinSeverityOnly :: "int \<Rightarrow> LogFilterParams" where
  "logMinSeverityOnly t = (logTimeOnly noTimeRange)\<lparr>MinSeverity := t\<rparr>"

text \<open>
  The table of \<^verbatim>\<open>severityNameToNumber\<close> read on a name that is already in lower case.
\<close>

definition exactSeverityNumber :: "string \<Rightarrow> int" where
  "exactSeverityNumber w =
     (if w = ''trace'' then 1
      else if w = ''debug'' then 5
      else if w = ''info'' then 9
      else if w = ''warn'' then 13
      else if w = ''error'' then 17
      else if w = ''fatal'' then 21
      else 0)"

text \<open>
  Modelled from the Go standard library: \<^verbatim>\<open>unicode.ToLower\<close> maps U+0130 (the capital I
  with a dot above, the two bytes C4 B0 in UTF-8) to U+0069 (\<^verbatim>\<open>i\<close>), so \<^verbatim>\<open>strings.ToLower\<close>
  of a string made of ASCII bytes and of U+0130 replaces each C4 B0 by \<^verbatim>\<open>i\<close> and lowers the
  ASCII letters. \<open>unicodeLib\<close> is a standard library with this Unicode path, and
  \<open>dottedInfo\<close> is the name U+0130 followed by \<^verbatim>\<open>nfo\<close>.
\<close>

fun lowerDottedI :: "string \<Rightarrow> string" where
  "lowerDottedI (c # d # cs) =
     (if c = CHR 0xC4 \<and> d = CHR 0xB0 then CHR ''i'' # lowerDottedI cs
      else lowerByte c # lowerDottedI (d # cs))"
| "lowerDottedI [c] = [lowerByte c]"
| "lowerDottedI [] = []"

definition unicodeLib :: stdlib where
  "unicodeLib = testLib\<lparr>unicodeToLower := lowerDottedI\<rparr>"

definition dottedInfo :: string where
  "dottedInfo = [CHR 0xC4, CHR 0xB0, CHR ''n'', CHR ''f'', CHR ''o'']"

text \<open>
  Five logs of the severity numbers 1, 9, 13, 17 and 21, in this order.
\<close>

definition fiveLogs :: "LogData list" where
  "fiveLogs =
     [exampleLog ''front'' 1, exampleLog ''front'' 9, exampleLog ''front'' 13,
      exampleLog ''front'' 17, exampleLog ''front'' 21]"

text \<open>
  Modelled from the spec: the lookup of a cache that maps a key to the records with that
  key in insertion order, an empty slice being removed from the map.
\<close>

definition keyed :: "('a \<Rightarrow> bool) \<Rightarrow> 'a list \<Rightarrow> 'a list option" where
  "keyed hasKey records =
     (case filter hasKey records of [] \<Rightarrow> None | x # xs \<Rightarrow> Some (x # xs))"

text \<open>
  Modelled from the spec: a store that holds the given spans, metrics and logs and was
  last updated at the given instant, with the indexes of the caches built from the
  records in insertion order (a span id maps to one span; a trace id, a pair of trace id
  and service, and a pair of service and metric name map to their records in order; a log
  is keyed by its trace id only when that is not empty). The filtered view of the metrics
  for a query holds the metrics for which \<^verbatim>\<open>service + " " + metricName\<close> contains the query,
  ignoring case. \<open>storeOf\<close> is such a store for concrete inputs.
\<close>

definition storeWith ::
    "stdlib \<Rightarrow> int \<Rightarrow> SpanData list \<Rightarrow> MetricData list \<Rightarrow> LogData list \<Rightarrow> Store" where
  "storeWith lib updated spans ms ls =
     \<lparr>GetSvcSpans = spans, GetFilteredMetrics = ms, GetFilteredLogs = ls,
      GetSpanByID = fold (\<lambda>span cache. cache(spanID span \<mapsto> span)) spans Map.empty,
      GetSpansByTraceID =
        (\<lambda>t. case filter (\<lambda>span. spanTraceID span = t) spans of
                [] \<Rightarrow> None
              | x # xs \<Rightarrow> Some (x # xs)),
      GetSpansByTraceIDAndSvc =
        (\<lambda>t service.
           keyed (\<lambda>span. spanTraceID span = t \<and> spanServiceName span = service) spans),
      FilteredMetricsFor =
        (\<lambda>query.
           filter
             (\<lambda>metric.
                strings_Contains
                  (strings_ToLower lib (mdServiceName metric @ '' '' @ mdMetricName metric))
                  (strings_ToLower lib query))
             ms),
      GetMetricsBySvcAndMetricName =
        (\<lambda>service name.
           keyed (\<lambda>metric. mdServiceName metric = service \<and> mdMetricName metric = name) ms),
      GetLogsByTraceID =
        (\<lambda>t. if t = [] then None else keyed (\<lambda>log. ldTraceID log = t) ls),
      UpdatedAt = updated\<rparr>"

definition storeOf :: "SpanData list \<Rightarrow> MetricData list \<Rightarrow> LogData list \<Rightarrow> Store" where
  "storeOf spans ms ls = storeWith testLib 0 spans ms ls"


record StoreState =
  stSpans :: "SpanData list"
  stMetrics :: "MetricData list"
  stLogs :: "LogData list"
  stUpdatedAt :: int
  stClockReads :: nat














definition accessors :: "stdlib \<Rightarrow> StoreState \<Rightarrow> Store" where
  "accessors lib st = storeWith lib (stUpdatedAt st) (stSpans st) (stMetrics st) (stLogs st)"

















text \<open>
  Four spans: a span of service \<^verbatim>\<open>a->b\<close> with a child of service \<^verbatim>\<open>c\<close>, and a span of
  service \<^verbatim>\<open>a\<close> with a child of service \<^verbatim>\<open>b->c\<close>.
\<close>

definition collisionSpans :: "SpanData list" where
  "collisionSpans =
     [exampleSpan ''a->b'' ''p1'' ''01'' [] 1,
      exampleSpan ''c'' ''c1'' ''02'' ''01'' 2,
      exampleSpan ''a'' ''p2'' ''03'' [] 3,
      exampleSpan ''b->c'' ''c2'' ''04'' ''03'' 4]"

text \<open>
  What the topology is about. \<open>spanEdge\<close> is the pair of parent service and child service
  that a span witnesses: its parent id is not empty, the parent resolves in the span-id
  index, and the two services differ. \<open>witnessedEdges\<close> lists these pairs span by span, and
  \<open>edgeKey\<close> is the key under which \<^verbatim>\<open>buildTopology\<close> stores a pair. \<open>edgesOf\<close> is the edge
  map of a list of pairs: a key is present when a pair has it, with the source and target
  of the first such pair and the number of such pairs as count. \<open>nodesOf\<close> is the node map
  of a set of services. \<open>addNode\<close> and \<open>addEdge\<close> are the "add if not exists" and the
  "add or increment" of the loop.
\<close>

definition spanEdge :: "(string \<Rightarrow> SpanData option) \<Rightarrow> SpanData \<Rightarrow> (string \<times> string) option" where
  "spanEdge cache span =
     (if parentSpanID span \<noteq> []
      then (case cache (parentSpanID span) of
              Some parentSpan \<Rightarrow>
                (if spanServiceName parentSpan \<noteq> spanServiceName span
                 then Some (spanServiceName parentSpan, spanServiceName span)
                 else None)
            | None \<Rightarrow> None)
      else None)"

definition witnessedEdges ::
    "(string \<Rightarrow> SpanData option) \<Rightarrow> SpanData list \<Rightarrow> (string \<times> string) list" where
  "witnessedEdges cache spans = List.map_filter (spanEdge cache) spans"

definition edgeKey :: "string \<times> string \<Rightarrow> string" where
  "edgeKey e = fst e @ ''->'' @ snd e"

definition edgesOf :: "(string \<times> string) list \<Rightarrow> string \<Rightarrow> TopologyEdgeJSON option" where
  "edgesOf ws k =
     (case filter (\<lambda>e. edgeKey e = k) ws of
        [] \<Rightarrow> None
      | e # es \<Rightarrow> Some \<lparr>Source = fst e, Target = snd e, Count = 1 + int (length es)\<rparr>)"

definition nodesOf :: "string set \<Rightarrow> string \<Rightarrow> TopologyNodeJSON option" where
  "nodesOf S k = (if k \<in> S then Some \<lparr>nodeService = k, Depth = 0\<rparr> else None)"

definition addNode ::
    "string \<Rightarrow> (string \<Rightarrow> TopologyNodeJSON option) \<Rightarrow> (string \<Rightarrow> TopologyNodeJSON option)" where
  "addNode k nodes =
     (if nodes k = None then nodes(k \<mapsto> \<lparr>nodeService = k, Depth = 0\<rparr>) else nodes)"

definition addEdge ::
    "string \<times> string \<Rightarrow> (string \<Rightarrow> TopologyEdgeJSON option) \<Rightarrow> (string \<Rightarrow> TopologyEdgeJSON option)" where
  "addEdge e edges =
     (case edges (edgeKey e) of
        Some edge \<Rightarrow> edges(edgeKey e \<mapsto> edge\<lparr>Count := Count edge + 1\<rparr>)
      | None \<Rightarrow> edges(edgeKey e \<mapsto> \<lparr>Source = fst e, Target = snd e, Count = 1\<rparr>))"

section \<open>Parsing of the pagination parameters\<close>

lemma strconv_Atoi_empty: "strconv_Atoi [] = None"
  by (simp add: strconv_Atoi_def strconv_ParseInt_def)

lemma specPaginationValue_Get:
  "specPaginationValue q key = strconv_Atoi (Values_Get q key)"
  by (simp add: specPaginationValue_def Values_Get_def strconv_Atoi_empty
           split: option.splits list.splits)

text \<open>
  C9. The offset is 0 when the \<^verbatim>\<open>offset\<close> parameter is absent, does not parse or is
  negative, and the parsed value otherwise; the limit is 100 when the \<^verbatim>\<open>limit\<close> parameter
  is absent, does not parse or is not positive, and otherwise the parsed value, at most
  1000.
\<close>

theorem ParsePaginationParams_defaults_and_clamp:
  "Offset (ParsePaginationParams q) =
     (case specPaginationValue q ''offset'' of
        None \<Rightarrow> 0
      | Some v \<Rightarrow> if v < 0 then 0 else v) \<and>
   Limit (ParsePaginationParams q) =
     (case specPaginationValue q ''limit'' of
        None \<Rightarrow> 100
      | Some v \<Rightarrow> if v \<le> 0 then 100 else min v 1000)"
  by (auto simp add: specPaginationValue_Get ParsePaginationParams_def Let_def strconv_Atoi_empty
      split: option.splits)

theorem ParsePaginationParams_defaults_and_clamp_witness:
  "ParsePaginationParams (Map.empty(''offset'' \<mapsto> [''-3''], ''limit'' \<mapsto> [''5000''])) =
     \<lparr>Offset = 0, Limit = 1000\<rparr>"
  using ParsePaginationParams_defaults_and_clamp
          [of "Map.empty(''offset'' \<mapsto> [''-3''], ''limit'' \<mapsto> [''5000''])"]
  by (simp add: specPaginationValue_def strconv_Atoi_def strconv_ParseInt_def isDigit_def
        inInt64_def)

section \<open>Severity threshold of the log filter\<close>

lemma char_le_iff: "(c \<le> d) = ((of_char c :: nat) \<le> of_char d)"
  by (simp add: less_eq_char_def)

lemma of_char_lowerByte:
  "(of_char (lowerByte c) :: nat) =
     (if 65 \<le> (of_char c :: nat) \<and> (of_char c :: nat) \<le> 90 then of_char c + 32 else of_char c)"
proof (cases c)
  case (Char b0 b1 b2 b3 b4 b5 b6 b7)
  show ?thesis
    unfolding lowerByte_def char_le_iff Char
    by (cases b0; cases b1; cases b2; cases b3; cases b4; cases b5; cases b6; cases b7) simp_all
qed

lemma lowerByte_eq_iff:
  assumes "lowerLetter b"
  shows "lowerByte a = b \<longleftrightarrow> sameLetter a b"
proof -
  define x where "x = (of_char a :: nat)"
  define y where "y = (of_char b :: nat)"
  have b: "97 \<le> y" "y \<le> 122"
    using assms by (simp_all add: lowerLetter_def char_le_iff y_def)
  have eq: "a = b \<longleftrightarrow> x = y"
    by (simp add: x_def y_def)
  have "lowerByte a = b \<longleftrightarrow> (of_char (lowerByte a) :: nat) = y"
    by (simp add: y_def)
  also have "\<dots> \<longleftrightarrow> (if 65 \<le> x \<and> x \<le> 90 then x + 32 else x) = y"
    by (simp only: of_char_lowerByte x_def)
  also have "\<dots> \<longleftrightarrow>
      x = y \<or> (65 \<le> x \<and> x \<le> 90 \<and> y = x + 32) \<or> (65 \<le> y \<and> y \<le> 90 \<and> x = y + 32)"
    using b by auto
  also have "\<dots> \<longleftrightarrow> sameLetter a b"
    by (simp only: sameLetter_def char_le_iff eq x_def y_def) simp
  finally show ?thesis .
qed

lemma map_lowerByte_eq_iff:
  "list_all lowerLetter t \<Longrightarrow> map lowerByte s = t \<longleftrightarrow> equalIgnoringCase s t"
  unfolding equalIgnoringCase_def
proof (induction s arbitrary: t)
  case Nil
  then show ?case by auto
next
  case (Cons a s)
  then show ?case by (cases t) (auto simp add: lowerByte_eq_iff)
qed

lemma severityNameToNumber_ascii:
  assumes "isASCII name"
  shows "severityNameToNumber lib name = specSeverityNumber name"
proof -
  have l: "strings_ToLower lib name = map lowerByte name"
    using assms by (simp add: strings_ToLower_def)
  have w: "list_all lowerLetter ''trace''" "list_all lowerLetter ''debug''"
    "list_all lowerLetter ''info''" "list_all lowerLetter ''warn''"
    "list_all lowerLetter ''error''" "list_all lowerLetter ''fatal''"
    by (simp_all add: lowerLetter_def)
  show ?thesis
    unfolding severityNameToNumber_def specSeverityNumber_def Let_def l
    by (simp only: map_lowerByte_eq_iff [OF w(1)] map_lowerByte_eq_iff [OF w(2)]
        map_lowerByte_eq_iff [OF w(3)] map_lowerByte_eq_iff [OF w(4)]
        map_lowerByte_eq_iff [OF w(5)] map_lowerByte_eq_iff [OF w(6)])
qed

lemma min_severity_predicate:
  "matchesLogFilters lib log params =
     (matchesLogFilters lib log (params\<lparr>MinSeverity := 0\<rparr>) \<and>
      (if MinSeverity params > 0 then ldSeverityNumber log \<ge> MinSeverity params else True))"
  by (simp add: matchesLogFilters_def not_less)

lemma severityNameToNumber_empty: "severityNameToNumber lib [] = 0"
  by (simp add: severityNameToNumber_def strings_ToLower_def isASCII_def)

lemma min_severity_absent:
  "MinSeverity (ParseLogFilterParams lib q) =
     (case q ''min_severity'' of
        Some (v # vs) \<Rightarrow> severityNameToNumber lib v
      | _ \<Rightarrow> 0)"
  by (simp add: ParseLogFilterParams_def Let_def Values_Get_def severityNameToNumber_empty
      split: option.splits list.splits)

lemma severityNameToNumber_all_names:
  "severityNameToNumber lib name =
     (if isASCII name then specSeverityNumber name
      else exactSeverityNumber (unicodeToLower lib name))"
proof (cases "isASCII name")
  case True
  then show ?thesis by (simp add: severityNameToNumber_ascii)
next
  case False
  then show ?thesis
    by (simp add: severityNameToNumber_def strings_ToLower_def exactSeverityNumber_def Let_def)
qed

lemma min_severity_only:
  "matchesLogFilters lib log (logMinSeverityOnly t) =
     (if t > 0 then ldSeverityNumber log \<ge> t else True)"
  by (simp add: matchesLogFilters_def logMinSeverityOnly_def logTimeOnly_def noTimeRange_def
        not_less)

lemma parse_min_severity_warn:
  "ParseLogFilterParams testLib (Map.empty(''min_severity'' \<mapsto> [''WaRn''])) =
     logMinSeverityOnly 13"
  by (simp add: ParseLogFilterParams_def ParseTimeRangeParams_def parseTimeValue_def
        ParsePaginationParams_def Values_Get_def strings_ToLower_def isASCII_def
        severityNameToNumber_def lowerByte_def logMinSeverityOnly_def logTimeOnly_def
        noTimeRange_def Let_def)

lemma parse_min_severity_bogus:
  "ParseLogFilterParams testLib (Map.empty(''min_severity'' \<mapsto> [''bogus''])) =
     logMinSeverityOnly 0"
  by (simp add: ParseLogFilterParams_def ParseTimeRangeParams_def parseTimeValue_def
        ParsePaginationParams_def Values_Get_def strings_ToLower_def isASCII_def
        severityNameToNumber_def lowerByte_def logMinSeverityOnly_def logTimeOnly_def
        noTimeRange_def Let_def)

text \<open>
  C8 as amended. \<^verbatim>\<open>severityNameToNumber\<close> lowers the name with \<^verbatim>\<open>strings.ToLower\<close> and reads
  the table trace 1, debug 5, info 9, warn 13, error 17, fatal 21, every other word being
  0: a name of ASCII bytes is in the table when it equals one of the six words ignoring
  ASCII case, and a name with a byte outside ASCII when its Unicode lower-casing is one of
  the six words. With no other predicate set, a log passes a positive threshold exactly
  when its severity number is at least the threshold, and every log passes a threshold
  that is not positive; in every filter the minimum-severity test is a conjunct of its
  own. The parsed threshold is the number of the \<^verbatim>\<open>min_severity\<close> parameter, and 0 when
  the parameter is absent.
\<close>

theorem min_severity_threshold:
  "severityNameToNumber lib name =
     (if isASCII name then specSeverityNumber name
      else exactSeverityNumber (unicodeToLower lib name)) \<and>
   matchesLogFilters lib log (logMinSeverityOnly t) =
     (if t > 0 then ldSeverityNumber log \<ge> t else True) \<and>
   matchesLogFilters lib log params =
     (matchesLogFilters lib log (params\<lparr>MinSeverity := 0\<rparr>) \<and>
      (if MinSeverity params > 0 then ldSeverityNumber log \<ge> MinSeverity params else True)) \<and>
   MinSeverity (ParseLogFilterParams lib q) =
     (case q ''min_severity'' of
        Some (v # vs) \<Rightarrow> severityNameToNumber lib v
      | _ \<Rightarrow> 0)"
  using severityNameToNumber_all_names [of lib name] min_severity_only [of lib log t]
    min_severity_predicate [of lib log params] min_severity_absent [of lib q]
  by blast

theorem min_severity_threshold_witness:
  "FilterLogs testLib fiveLogs
     (ParseLogFilterParams testLib (Map.empty(''min_severity'' \<mapsto> [''WaRn'']))) =
     Some [exampleLog ''front'' 13, exampleLog ''front'' 17, exampleLog ''front'' 21] \<and>
   FilterLogs testLib fiveLogs
     (ParseLogFilterParams testLib (Map.empty(''min_severity'' \<mapsto> [''bogus'']))) =
     Some fiveLogs \<and>
   severityNameToNumber testLib ''WaRn'' = 13 \<and>
   severityNameToNumber testLib ''bogus'' = 0"
proof -
  have m: "matchesLogFilters testLib log (logMinSeverityOnly t) =
             (if t > 0 then ldSeverityNumber log \<ge> t else True)" for log t
    using min_severity_threshold [of testLib "''WaRn''" log t "logMinSeverityOnly t" Map.empty]
    by blast
  have n: "severityNameToNumber testLib name =
     (if isASCII name then specSeverityNumber name
      else exactSeverityNumber (unicodeToLower testLib name))" for name
    using min_severity_threshold
            [of testLib name "exampleLog ''front'' 1" 0 "logMinSeverityOnly 0" Map.empty]
    by blast
  have w: "severityNameToNumber testLib ''WaRn'' = 13" "severityNameToNumber testLib ''bogus'' = 0"
    by (simp_all add: n isASCII_def specSeverityNumber_def equalIgnoringCase_def sameLetter_def)
  have pg: "logPagination (logMinSeverityOnly t) = \<lparr>Offset = 0, Limit = 100\<rparr>" for t
    by (simp add: logMinSeverityOnly_def logTimeOnly_def)
  have f: "FilterLogs testLib fiveLogs (logMinSeverityOnly 13) =
             Some [exampleLog ''front'' 13, exampleLog ''front'' 17, exampleLog ''front'' 21]"
    "FilterLogs testLib fiveLogs (logMinSeverityOnly 0) = Some fiveLogs"
    by (simp_all add: FilterLogs_def m pg fiveLogs_def exampleLog_def paginateLogs_def
          int64_def goSlice_def Let_def)
  show ?thesis
    unfolding parse_min_severity_warn parse_min_severity_bogus
    using f w by simp
qed


text \<open>
  C8 as stated fails for a name with a byte outside ASCII: the name U+0130 followed by
  \<^verbatim>\<open>nfo\<close> is none of the six words under ASCII case folding, so the table as stated gives
  0, but its Unicode lower-casing is \<^verbatim>\<open>info\<close> and \<^verbatim>\<open>severityNameToNumber\<close> returns 9.
\<close>

theorem severity_dotted_capital_i_counterexample:
  "severityNameToNumber unicodeLib dottedInfo = 9 \<and> specSeverityNumber dottedInfo = 0"
  by (simp add: severityNameToNumber_def strings_ToLower_def isASCII_def unicodeLib_def
        testLib_def dottedInfo_def lowerByte_def specSeverityNumber_def equalIgnoringCase_def
        sameLetter_def)

section \<open>Time range of the three filters\<close>

lemma span_time_range:
  "matchesSpanFilters lib span params =
     (matchesSpanFilters lib span (params\<lparr>TimeRange := noTimeRange\<rparr>) \<and>
      inTimeRange (ReceivedAt span) (TimeRange params))"
  by (cases "StartTime (TimeRange params)"; cases "EndTime (TimeRange params)")
     (simp_all add: matchesSpanFilters_def inTimeRange_def noTimeRange_def Before_def After_def
        not_less)

lemma log_time_range:
  "matchesLogFilters lib log lparams =
     (matchesLogFilters lib log (lparams\<lparr>logTimeRange := noTimeRange\<rparr>) \<and>
      inTimeRange (AsTime (ldTimestamp log)) (logTimeRange lparams))"
  by (cases "StartTime (logTimeRange lparams)"; cases "EndTime (logTimeRange lparams)")
     (simp_all add: matchesLogFilters_def inTimeRange_def noTimeRange_def Before_def After_def
        not_less)

lemma metric_time_range:
  "matchesMetricFilters lib metric mparams =
     (matchesMetricFilters lib metric (mparams\<lparr>metricTimeRange := noTimeRange\<rparr>) \<and>
      inTimeRange (mdReceivedAt metric) (metricTimeRange mparams))"
  by (cases "StartTime (metricTimeRange mparams)"; cases "EndTime (metricTimeRange mparams)")
     (simp_all add: matchesMetricFilters_def inTimeRange_def noTimeRange_def Before_def After_def
        not_less)

lemma span_time_only:
  "matchesSpanFilters lib span (traceTimeOnly tr) = inTimeRange (ReceivedAt span) tr"
  by (cases "StartTime tr"; cases "EndTime tr")
     (simp_all add: matchesSpanFilters_def traceTimeOnly_def inTimeRange_def Before_def After_def
        not_less)

lemma log_time_only:
  "matchesLogFilters lib log (logTimeOnly tr) = inTimeRange (AsTime (ldTimestamp log)) tr"
  by (cases "StartTime tr"; cases "EndTime tr")
     (simp_all add: matchesLogFilters_def logTimeOnly_def inTimeRange_def Before_def After_def
        not_less)

lemma metric_time_only:
  "matchesMetricFilters lib metric (metricTimeOnly tr) = inTimeRange (mdReceivedAt metric) tr"
  by (cases "StartTime tr"; cases "EndTime tr")
     (simp_all add: matchesMetricFilters_def metricTimeOnly_def inTimeRange_def Before_def
        After_def not_less)

lemma span_time_closed:
  "matchesSpanFilters lib span (traceTimeOnly \<lparr>StartTime = Some s, EndTime = Some e\<rparr>) =
     (s \<le> ReceivedAt span \<and> ReceivedAt span \<le> e)"
  by (simp add: span_time_only inTimeRange_def)

lemma log_time_closed:
  "matchesLogFilters lib log (logTimeOnly \<lparr>StartTime = Some s, EndTime = Some e\<rparr>) =
     (s \<le> AsTime (ldTimestamp log) \<and> AsTime (ldTimestamp log) \<le> e)"
  by (simp add: log_time_only inTimeRange_def)

lemma metric_time_closed:
  "matchesMetricFilters lib metric (metricTimeOnly \<lparr>StartTime = Some s, EndTime = Some e\<rparr>) =
     (s \<le> mdReceivedAt metric \<and> mdReceivedAt metric \<le> e)"
  by (simp add: metric_time_only inTimeRange_def)

lemma boundary_records_accepted:
  "matchesSpanFilters lib span
     (traceTimeOnly \<lparr>StartTime = Some (ReceivedAt span), EndTime = Some (ReceivedAt span)\<rparr>) \<and>
   matchesLogFilters lib log
     (logTimeOnly \<lparr>StartTime = Some (AsTime (ldTimestamp log)),
                   EndTime = Some (AsTime (ldTimestamp log))\<rparr>) \<and>
   matchesMetricFilters lib metric
     (metricTimeOnly \<lparr>StartTime = Some (mdReceivedAt metric),
                      EndTime = Some (mdReceivedAt metric)\<rparr>)"
  by (simp add: span_time_closed log_time_closed metric_time_closed)

lemma parse_time_range_five:
  "ParseTraceFilterParams testLib (Map.empty(''start_time'' \<mapsto> [''5''], ''end_time'' \<mapsto> [''5''])) =
     traceTimeOnly \<lparr>StartTime = Some 5000000, EndTime = Some 5000000\<rparr>"
  by (simp add: ParseTraceFilterParams_def ParseTimeRangeParams_def parseTimeValue_def
        parseDurationMs_def ParsePaginationParams_def Values_Get_def strconv_Atoi_def
        strconv_ParseInt_def isDigit_def inInt64_def strings_ToLower_def isASCII_def
        traceTimeOnly_def testLib_def int64_def Let_def)

text \<open>
  C10. The time range is closed at both ends in each of the three filters. A span whose
  received-at, a log whose timestamp and a metric whose received-at equals both the start
  and the end of the range is accepted. With no other predicate set, a record is accepted
  by a range with both bounds exactly when its time is at least the start and at most the
  end, and by any range exactly when no present bound is strictly after (start) or
  strictly before (end) its time. In every filter the time-range test is a conjunct of
  its own.
\<close>

theorem time_range_boundary_inclusive:
  "matchesSpanFilters lib span
     (traceTimeOnly \<lparr>StartTime = Some (ReceivedAt span), EndTime = Some (ReceivedAt span)\<rparr>) \<and>
   matchesLogFilters lib log
     (logTimeOnly \<lparr>StartTime = Some (AsTime (ldTimestamp log)),
                   EndTime = Some (AsTime (ldTimestamp log))\<rparr>) \<and>
   matchesMetricFilters lib metric
     (metricTimeOnly \<lparr>StartTime = Some (mdReceivedAt metric),
                      EndTime = Some (mdReceivedAt metric)\<rparr>) \<and>
   matchesSpanFilters lib span (traceTimeOnly \<lparr>StartTime = Some s, EndTime = Some e\<rparr>) =
     (s \<le> ReceivedAt span \<and> ReceivedAt span \<le> e) \<and>
   matchesLogFilters lib log (logTimeOnly \<lparr>StartTime = Some s, EndTime = Some e\<rparr>) =
     (s \<le> AsTime (ldTimestamp log) \<and> AsTime (ldTimestamp log) \<le> e) \<and>
   matchesMetricFilters lib metric (metricTimeOnly \<lparr>StartTime = Some s, EndTime = Some e\<rparr>) =
     (s \<le> mdReceivedAt metric \<and> mdReceivedAt metric \<le> e) \<and>
   matchesSpanFilters lib span (traceTimeOnly tr) = inTimeRange (ReceivedAt span) tr \<and>
   matchesLogFilters lib log (logTimeOnly tr) = inTimeRange (AsTime (ldTimestamp log)) tr \<and>
   matchesMetricFilters lib metric (metricTimeOnly tr) = inTimeRange (mdReceivedAt metric) tr \<and>
   matchesSpanFilters lib span params =
     (matchesSpanFilters lib span (params\<lparr>TimeRange := noTimeRange\<rparr>) \<and>
      inTimeRange (ReceivedAt span) (TimeRange params)) \<and>
   matchesLogFilters lib log lparams =
     (matchesLogFilters lib log (lparams\<lparr>logTimeRange := noTimeRange\<rparr>) \<and>
      inTimeRange (AsTime (ldTimestamp log)) (logTimeRange lparams)) \<and>
   matchesMetricFilters lib metric mparams =
     (matchesMetricFilters lib metric (mparams\<lparr>metricTimeRange := noTimeRange\<rparr>) \<and>
      inTimeRange (mdReceivedAt metric) (metricTimeRange mparams))"
  using boundary_records_accepted [of lib span log metric]
    span_time_closed [of lib span s e] log_time_closed [of lib log s e]
    metric_time_closed [of lib metric s e]
    span_time_only [of lib span tr] log_time_only [of lib log tr]
    metric_time_only [of lib metric tr]
    span_time_range [of lib span params] log_time_range [of lib log lparams]
    metric_time_range [of lib metric mparams]
  by blast

theorem time_range_boundary_inclusive_witness:
  "FilterSpans testLib
     [exampleSpan ''front'' ''a'' ''01'' [] 4999999,
      exampleSpan ''front'' ''b'' ''02'' [] 5000000,
      exampleSpan ''front'' ''c'' ''03'' [] 5000001]
     (ParseTraceFilterParams testLib
        (Map.empty(''start_time'' \<mapsto> [''5''], ''end_time'' \<mapsto> [''5'']))) =
     Some [exampleSpan ''front'' ''b'' ''02'' [] 5000000] \<and>
   matchesLogFilters testLib (exampleLog ''front'' 9)
     (logTimeOnly \<lparr>StartTime = Some 0, EndTime = Some 0\<rparr>) \<and>
   \<not> matchesLogFilters testLib (exampleLog ''front'' 9)
     (logTimeOnly \<lparr>StartTime = Some 1, EndTime = Some 1\<rparr>) \<and>
   matchesMetricFilters testLib (exampleMetric ''front'' ''cpu'' 7)
     (metricTimeOnly \<lparr>StartTime = Some 7, EndTime = Some 7\<rparr>) \<and>
   \<not> matchesMetricFilters testLib (exampleMetric ''front'' ''cpu'' 7)
     (metricTimeOnly \<lparr>StartTime = Some 3, EndTime = Some 6\<rparr>)"
proof -
  have f: "FilterSpans testLib
     [exampleSpan ''front'' ''a'' ''01'' [] 4999999,
      exampleSpan ''front'' ''b'' ''02'' [] 5000000,
      exampleSpan ''front'' ''c'' ''03'' [] 5000001]
     (traceTimeOnly \<lparr>StartTime = Some 5000000, EndTime = Some 5000000\<rparr>) =
     Some [exampleSpan ''front'' ''b'' ''02'' [] 5000000]"
    by (simp add: FilterSpans_def matchesSpanFilters_def traceTimeOnly_def exampleSpan_def
          Before_def After_def sortSpans_def sortSpansByTime_def swapLoopOuter.simps
          swapLoopInner.simps paginateSpans_def int64_def goSlice_def Let_def)
  let ?span = "exampleSpan ''front'' ''b'' ''02'' [] 5000000"
  let ?log = "exampleLog ''front'' 9"
  let ?metric = "exampleMetric ''front'' ''cpu'' 7"
  have t: "matchesLogFilters testLib ?log (logTimeOnly \<lparr>StartTime = Some s, EndTime = Some e\<rparr>) =
             (s \<le> AsTime (ldTimestamp ?log) \<and> AsTime (ldTimestamp ?log) \<le> e) \<and>
           matchesMetricFilters testLib ?metric
             (metricTimeOnly \<lparr>StartTime = Some s, EndTime = Some e\<rparr>) =
             (s \<le> mdReceivedAt ?metric \<and> mdReceivedAt ?metric \<le> e)" for s e
    using time_range_boundary_inclusive
            [of testLib ?span ?log ?metric s e noTimeRange "traceTimeOnly noTimeRange"
               "logTimeOnly noTimeRange" "metricTimeOnly noTimeRange"]
    by blast
  show ?thesis
    unfolding parse_time_range_five
    using f t [of 0 0] t [of 1 1] t [of 7 7] t [of 3 6]
    by (simp add: exampleLog_def exampleMetric_def AsTime_def)
qed


section \<open>The sort loops\<close>

lemma mset_swapLoopInner:
  "i < j \<Longrightarrow> mset (swapLoopInner swap i j xs) = mset xs"
proof (induction swap i j xs rule: swapLoopInner.induct)
  case (1 swap i j spans)
  show ?case
  proof (cases "j < length spans")
    case True
    let ?next = "if swap (spans ! i) (spans ! j) then spans[i := spans ! j, j := spans ! i] else spans"
    have "mset ?next = mset spans"
      using True "1.prems" by (simp add: mset_swap)
    moreover have "mset (swapLoopInner swap i (j + 1) ?next) = mset ?next"
      using "1.IH" [OF True] "1.prems" by simp
    ultimately show ?thesis
      using True by (subst swapLoopInner.simps) simp
  next
    case False
    then show ?thesis by (subst swapLoopInner.simps) simp
  qed
qed

lemma take_swapLoopInner:
  "i < j \<Longrightarrow> take i (swapLoopInner swap i j xs) = take i xs"
proof (induction swap i j xs rule: swapLoopInner.induct)
  case (1 swap i j spans)
  show ?case
  proof (cases "j < length spans")
    case True
    let ?next = "if swap (spans ! i) (spans ! j) then spans[i := spans ! j, j := spans ! i] else spans"
    have "take i ?next = take i spans"
      using "1.prems" by simp
    moreover have "take i (swapLoopInner swap i (j + 1) ?next) = take i ?next"
      using "1.IH" [OF True] "1.prems" by simp
    ultimately show ?thesis
      using True by (subst swapLoopInner.simps) simp
  next
    case False
    then show ?thesis by (subst swapLoopInner.simps) simp
  qed
qed

lemma least_swapLoopInner:
  assumes "swapTotal swap" "swapTrans swap"
  shows "i < j \<Longrightarrow> \<forall>k. i < k \<and> k < j \<longrightarrow> \<not> swap (xs ! i) (xs ! k) \<Longrightarrow>
         i < k \<Longrightarrow> k < length xs \<Longrightarrow>
         \<not> swap (swapLoopInner swap i j xs ! i) (swapLoopInner swap i j xs ! k)"
  using assms
proof (induction swap i j xs rule: swapLoopInner.induct)
  case (1 swap i j spans)
  show ?case
  proof (cases "j < length spans")
    case True
    let ?next = "if swap (spans ! i) (spans ! j) then spans[i := spans ! j, j := spans ! i] else spans"
    have inv: "\<forall>k. i < k \<and> k < j + 1 \<longrightarrow> \<not> swap (?next ! i) (?next ! k)"
    proof (intro allI impI)
      fix k assume k: "i < k \<and> k < j + 1"
      show "\<not> swap (?next ! i) (?next ! k)"
      proof (cases "swap (spans ! i) (spans ! j)")
        case sw: True
        then have ji: "\<not> swap (spans ! j) (spans ! i)"
          using "1.prems"(5) by (auto simp add: swapTotal_def)
        show ?thesis
        proof (cases "k = j")
          case True
          then show ?thesis using sw ji k \<open>j < length spans\<close> "1.prems"(1) by simp
        next
          case False
          then have kj: "k < j" using k by simp
          then have "\<not> swap (spans ! i) (spans ! k)" using "1.prems"(2) k by simp
          then have "\<not> swap (spans ! j) (spans ! k)"
            using ji "1.prems"(6) unfolding swapTrans_def by blast
          then show ?thesis using sw kj k \<open>j < length spans\<close> "1.prems"(1) by simp
        qed
      next
        case nsw: False
        show ?thesis
        proof (cases "k = j")
          case True
          then show ?thesis using nsw by simp
        next
          case False
          then have "k < j" using k by simp
          then show ?thesis using nsw "1.prems"(2) k by simp
        qed
      qed
    qed
    have "\<not> swap (swapLoopInner swap i (j + 1) ?next ! i) (swapLoopInner swap i (j + 1) ?next ! k)"
      using "1.IH" [OF True _ inv "1.prems"(3) _ "1.prems"(5,6)] "1.prems"(1,4) by simp
    then show ?thesis
      using True by (subst (1 2) swapLoopInner.simps) simp
  next
    case False
    then show ?thesis using "1.prems" by (subst (1 2) swapLoopInner.simps) simp
  qed
qed


lemma in_set_drop_iff:
  "x \<in> set (drop n xs) \<longleftrightarrow> (\<exists>k. n \<le> k \<and> k < length xs \<and> xs ! k = x)"
proof
  assume "x \<in> set (drop n xs)"
  then obtain i where i: "i < length xs - n" "drop n xs ! i = x"
    by (auto simp add: in_set_conv_nth)
  then show "\<exists>k. n \<le> k \<and> k < length xs \<and> xs ! k = x"
    by (intro exI [of _ "n + i"]) auto
next
  assume "\<exists>k. n \<le> k \<and> k < length xs \<and> xs ! k = x"
  then obtain k where k: "n \<le> k" "k < length xs" "xs ! k = x"
    by blast
  then have "drop n xs ! (k - n) = x" "k - n < length (drop n xs)"
    by auto
  then show "x \<in> set (drop n xs)"
    by (metis nth_mem)
qed

lemma mset_drop_swapLoopInner:
  assumes "i < j"
  shows "mset (drop i (swapLoopInner swap i j xs)) = mset (drop i xs)"
proof -
  let ?ys = "swapLoopInner swap i j xs"
  have "mset (take i ?ys) + mset (drop i ?ys) = mset (take i xs) + mset (drop i xs)"
    unfolding union_code using mset_swapLoopInner [OF assms, of swap xs] by simp
  then show ?thesis
    using take_swapLoopInner [OF assms, of swap xs] by simp
qed

lemma placed_swapLoopInner:
  assumes "swapTotal swap" "swapTrans swap" "placed swap i xs" "i < length xs"
  shows "placed swap (i + 1) (swapLoopInner swap i (i + 1) xs)"
  unfolding placed_def
proof (intro allI impI)
  let ?ys = "swapLoopInner swap i (i + 1) xs"
  fix a b assume ab: "a < i + 1 \<and> a < b \<and> b < length ?ys"
  have tk: "take i ?ys = take i xs" by (simp add: take_swapLoopInner)
  have pre: "?ys ! c = xs ! c" if "c < i" for c
    using that tk by (metis nth_take)
  show "\<not> swap (?ys ! a) (?ys ! b)"
  proof (cases "a < i")
    case True
    show ?thesis
    proof (cases "b < i")
      case True
      then show ?thesis using \<open>a < i\<close> ab assms(3) pre unfolding placed_def by simp
    next
      case False
      then have "i \<le> b \<and> b < length ?ys \<and> ?ys ! b = ?ys ! b"
        using ab by simp
      then have "?ys ! b \<in> set (drop i ?ys)"
        unfolding in_set_drop_iff by blast
      then have "?ys ! b \<in> set (drop i xs)"
        using mset_drop_swapLoopInner [of i "i + 1" swap xs] by (metis lessI Suc_eq_plus1 set_mset_mset)
      then obtain c where c: "i \<le> c" "c < length xs" "?ys ! b = xs ! c"
        by (auto simp add: in_set_drop_iff)
      then show ?thesis using \<open>a < i\<close> assms(3) pre unfolding placed_def by simp
    qed
  next
    case False
    then have ai: "a = i" using ab by simp
    have "\<forall>k. i < k \<and> k < i + 1 \<longrightarrow> \<not> swap (xs ! i) (xs ! k)"
      by auto
    then have "\<not> swap (?ys ! i) (?ys ! b)"
      using least_swapLoopInner [OF assms(1,2), of i "i + 1" xs b] ab ai by simp
    then show ?thesis using ai by simp
  qed
qed

lemma placed_swapLoopOuter:
  assumes "swapTotal swap" "swapTrans swap"
  shows "placed swap i xs \<Longrightarrow> placed swap (length xs) (swapLoopOuter swap i xs)"
  using assms
proof (induction swap i xs rule: swapLoopOuter.induct)
  case (1 swap i spans)
  show ?case
  proof (cases "i < length spans")
    case True
    have "placed swap (i + 1) (swapLoopInner swap i (i + 1) spans)"
      using placed_swapLoopInner [OF "1.prems"(2,3,1) True] .
    then have "placed swap (length spans) (swapLoopOuter swap (i + 1) (swapLoopInner swap i (i + 1) spans))"
      using "1.IH" [OF True _ "1.prems"(2,3)] by simp
    then show ?thesis using True by (subst swapLoopOuter.simps) simp
  next
    case False
    then have "placed swap (length spans) spans"
      using "1.prems"(1) unfolding placed_def by auto
    then show ?thesis using False by (subst swapLoopOuter.simps) simp
  qed
qed

lemma length_swapLoopOuter [simp]: "length (swapLoopOuter swap i xs) = length xs"
  by (induction swap i xs rule: swapLoopOuter.induct) (subst swapLoopOuter.simps, simp)

lemma mset_swapLoopOuter: "mset (swapLoopOuter swap i xs) = mset xs"
  by (induction swap i xs rule: swapLoopOuter.induct)
     (subst swapLoopOuter.simps, simp add: mset_swapLoopInner)

lemma sorted_wrt_swapLoopOuter:
  assumes "swapTotal swap" "swapTrans swap"
  shows "sorted_wrt (\<lambda>a b. \<not> swap a b) (swapLoopOuter swap 0 xs)"
proof -
  have "placed swap 0 xs" by (simp add: placed_def)
  then have "placed swap (length xs) (swapLoopOuter swap 0 xs)"
    using placed_swapLoopOuter [OF assms] by blast
  then show ?thesis
    by (simp add: sorted_wrt_iff_nth_less placed_def)
qed

lemma swapLoopInner_id:
  "\<forall>k. j \<le> k \<and> k < length xs \<longrightarrow> \<not> swap (xs ! i) (xs ! k) \<Longrightarrow> swapLoopInner swap i j xs = xs"
proof (induction swap i j xs rule: swapLoopInner.induct)
  case (1 swap i j spans)
  show ?case
  proof (cases "j < length spans")
    case True
    then have n: "\<not> swap (spans ! i) (spans ! j)" using "1.prems" by simp
    have "swapLoopInner swap i (j + 1) spans = spans"
      using "1.IH" [OF True] n "1.prems" by simp
    then show ?thesis using True n by (subst swapLoopInner.simps) simp
  next
    case False
    then show ?thesis by (subst swapLoopInner.simps) simp
  qed
qed

lemma swapLoopOuter_id:
  "sorted_wrt (\<lambda>a b. \<not> swap a b) xs \<Longrightarrow> swapLoopOuter swap i xs = xs"
proof (induction swap i xs rule: swapLoopOuter.induct)
  case (1 swap i spans)
  show ?case
  proof (cases "i < length spans")
    case True
    have "swapLoopInner swap i (i + 1) spans = spans"
      using "1.prems" by (intro swapLoopInner_id) (simp add: sorted_wrt_iff_nth_less)
    then show ?thesis
      using True "1.IH" [OF True] "1.prems" by (subst swapLoopOuter.simps) simp
  next
    case False
    then show ?thesis by (subst swapLoopOuter.simps) simp
  qed
qed

lemma swapTotal_keySwap: "swapTotal (keySwap key ascending)"
  by (auto simp add: swapTotal_def keySwap_def)

lemma swapTrans_keySwap: "swapTrans (keySwap key ascending)"
  by (auto simp add: swapTrans_def keySwap_def)

lemma sortedByKey_iff:
  "sortedByKey key ascending xs = sorted_wrt (\<lambda>a b. \<not> keySwap key ascending a b) xs"
proof (cases ascending)
  case True
  then show ?thesis
    by (simp add: sortedByKey_def keySwap_def sorted_map not_less)
next
  case False
  have "sorted (rev (map key xs)) = sorted_wrt (\<lambda>a b. key b \<le> key a) xs"
    by (simp add: sorted_wrt_rev sorted_wrt_map flip: rev_map)
  then show ?thesis
    using False by (simp add: sortedByKey_def keySwap_def not_less)
qed

lemma sortSpansByTime_keySwap:
  "sortSpansByTime spans ascending = swapLoopOuter (keySwap ReceivedAt ascending) 0 spans"
  by (simp only: sortSpansByTime_def keySwap_def [abs_def] After_def Before_def)

lemma sortSpansByDuration_keySwap:
  "sortSpansByDuration spans ascending = swapLoopOuter (keySwap spanDuration ascending) 0 spans"
  by (simp only: sortSpansByDuration_def keySwap_def [abs_def])

lemma sortSpansByName_keySwap:
  "sortSpansByName spans ascending = swapLoopOuter (keySwap spanName ascending) 0 spans"
  by (simp only: sortSpansByName_def keySwap_def [abs_def])

lemma sortSpans_swapLoop:
  "sortSpans spans sortBy sortOrder = swapLoopOuter (sortTest sortBy sortOrder) 0 spans"
  by (simp add: sortSpans_def sortTest_def Let_def sortSpansByTime_keySwap
        sortSpansByDuration_keySwap sortSpansByName_keySwap)

lemma sortTest_total: "swapTotal (sortTest sortBy sortOrder)"
  by (simp add: sortTest_def swapTotal_keySwap)

lemma sortTest_trans: "swapTrans (sortTest sortBy sortOrder)"
  by (simp add: sortTest_def swapTrans_keySwap)

lemma mset_sortSpans: "mset (sortSpans spans sortBy sortOrder) = mset spans"
  by (simp add: sortSpans_swapLoop mset_swapLoopOuter)

lemma sorted_sortSpans:
  "sorted_wrt (\<lambda>a b. \<not> sortTest sortBy sortOrder a b) (sortSpans spans sortBy sortOrder)"
  unfolding sortSpans_swapLoop
  by (rule sorted_wrt_swapLoopOuter [OF sortTest_total sortTest_trans])

lemma sortSpans_sortedByKey:
  "(if sortBy = ''duration''
    then sortedByKey spanDuration (sortOrder = ''asc'') (sortSpans spans sortBy sortOrder)
    else if sortBy = ''name''
    then sortedByKey spanName (sortOrder = ''asc'') (sortSpans spans sortBy sortOrder)
    else sortedByKey ReceivedAt (sortOrder = ''asc'') (sortSpans spans sortBy sortOrder))"
  using sorted_sortSpans [of sortBy sortOrder spans]
  by (cases "sortBy = ''duration''"; cases "sortBy = ''name''")
     (simp_all add: sortedByKey_iff sortTest_def)

lemma strings_ToLower_empty: "strings_ToLower lib [] = []"
  by (simp add: strings_ToLower_def isASCII_def)

lemma sort_defaults:
  "SortBy (ParseTraceFilterParams lib (q(''sort_by'' := None))) = ''time'' \<and>
   SortOrder (ParseTraceFilterParams lib (q(''sort_order'' := None))) = ''desc''"
  by (simp add: ParseTraceFilterParams_def Let_def Values_Get_def strings_ToLower_empty)

text \<open>
  C4 as amended. \<^verbatim>\<open>sortSpans\<close> permutes its input, and its result is sorted by the key
  that \<open>sortBy\<close> selects (duration, name, and received-at for \<^verbatim>\<open>"time"\<close> and for every other
  value), ascending when \<open>sortOrder\<close> is \<^verbatim>\<open>"asc"\<close> and descending otherwise. The parser sets
  the key \<^verbatim>\<open>"time"\<close> and the order \<^verbatim>\<open>"desc"\<close> when the parameters are absent. Nothing is
  promised about the relative order of two spans with equal keys.
\<close>

theorem sortSpans_sorted_by_requested_key:
  "mset (sortSpans spans sortBy sortOrder) = mset spans \<and>
   (if sortBy = ''duration''
    then sortedByKey spanDuration (sortOrder = ''asc'') (sortSpans spans sortBy sortOrder)
    else if sortBy = ''name''
    then sortedByKey spanName (sortOrder = ''asc'') (sortSpans spans sortBy sortOrder)
    else sortedByKey ReceivedAt (sortOrder = ''asc'') (sortSpans spans sortBy sortOrder)) \<and>
   SortBy (ParseTraceFilterParams lib (q(''sort_by'' := None))) = ''time'' \<and>
   SortOrder (ParseTraceFilterParams lib (q(''sort_order'' := None))) = ''desc''"
  using mset_sortSpans sortSpans_sortedByKey sort_defaults by blast

text \<open>
  C4 as stated fails: two spans of the same name, received at 1 and at 2 and given in
  that order, stay in that order when sorted by name, the one received earlier first.
\<close>

lemma sortSpans_two_same_name:
  "sortSpans [exampleSpan ''svc'' ''x'' ''01'' [] 1, exampleSpan ''svc'' ''x'' ''02'' [] 2] ''name'' ''asc'' =
     [exampleSpan ''svc'' ''x'' ''01'' [] 1, exampleSpan ''svc'' ''x'' ''02'' [] 2]"
  by (simp add: sortSpans_def sortSpansByName_def swapLoopOuter.simps swapLoopInner.simps
        exampleSpan_def)

theorem sortSpans_tie_break_counterexample:
  "\<not> tiesByReceivedAtDescending spanName
       (sortSpans [exampleSpan ''svc'' ''x'' ''01'' [] 1, exampleSpan ''svc'' ''x'' ''02'' [] 2] ''name'' ''asc'')"
  unfolding sortSpans_two_same_name
  by (simp add: tiesByReceivedAtDescending_def exampleSpan_def)

section \<open>Pagination\<close>

lemma int64_id: "inInt64 x \<Longrightarrow> int64 x = x"
  by (simp add: int64_def inInt64_def)

lemma goSlice_window:
  assumes "0 \<le> off" "0 < L" "off < int (length xs)"
  shows "goSlice xs off (if off + L > int (length xs) then int (length xs) else off + L) =
         Some (take (nat L) (drop (nat off) xs))"
proof (cases "off + L > int (length xs)")
  case True
  then have "length (drop (nat off) xs) \<le> nat L"
    using assms by simp
  then have "take (nat L) (drop (nat off) xs) = drop (nat off) xs"
    by simp
  moreover have "take (nat (int (length xs) - off)) (drop (nat off) xs) = drop (nat off) xs"
    using assms by simp
  ultimately show ?thesis
    using True assms by (simp add: goSlice_def)
next
  case False
  then show ?thesis
    using assms by (simp add: goSlice_def)
qed

lemma paginateSpans_page:
  assumes "0 \<le> off" "0 < L" "off < int (length xs)" "off + L < 2 ^ 63"
  shows "paginateSpans xs \<lparr>Offset = off, Limit = L\<rparr> = Some (take (nat L) (drop (nat off) xs))"
proof -
  have "int64 (off + L) = off + L"
    using assms by (intro int64_id) (simp add: inInt64_def)
  then show ?thesis
    using assms goSlice_window [OF assms(1,2,3)] by (simp add: paginateSpans_def Let_def)
qed

lemma paginateLogs_page:
  assumes "0 \<le> off" "0 < L" "off < int (length xs)" "off + L < 2 ^ 63"
  shows "paginateLogs xs \<lparr>Offset = off, Limit = L\<rparr> = Some (take (nat L) (drop (nat off) xs))"
proof -
  have "int64 (off + L) = off + L"
    using assms by (intro int64_id) (simp add: inInt64_def)
  then show ?thesis
    using assms goSlice_window [OF assms(1,2,3)] by (simp add: paginateLogs_def Let_def)
qed

lemma paginateSpans_beyond:
  "int (length xs) \<le> off \<Longrightarrow> paginateSpans xs \<lparr>Offset = off, Limit = L\<rparr> = Some []"
  by (simp add: paginateSpans_def)

lemma paginateLogs_beyond:
  "int (length xs) \<le> off \<Longrightarrow> paginateLogs xs \<lparr>Offset = off, Limit = L\<rparr> = Some []"
  by (simp add: paginateLogs_def)

lemma page_offset_fits:
  assumes "0 < L" "L < 2 ^ 63" "length xs \<le> 2 ^ 62" "int k * L < int (length xs)"
  shows "int k * L + L < 2 ^ 63"
proof (cases k)
  case 0
  then show ?thesis using assms by simp
next
  case (Suc m)
  have "L \<le> int k * L"
    using Suc assms(1) by (simp add: distrib_right)
  moreover have "int (length xs) \<le> int (2 ^ 62)"
    using assms(3) by (simp only: of_nat_le_iff)
  then have "int (length xs) \<le> 2 ^ 62"
    by simp
  ultimately show ?thesis
    using assms(4) by simp
qed

lemma those_map_Some: "those (map (\<lambda>k. Some (f k)) ks) = Some (map f ks)"
  by (induction ks) simp_all

lemma concat_windows:
  "concat (map (\<lambda>k. take l (drop (k * l) xs)) [0..<n]) = take (n * l) xs"
proof (induction n)
  case 0
  show ?case by simp
next
  case (Suc n)
  have "take (n * l) xs @ take l (drop (n * l) xs) = take (n * l + l) xs"
    by (simp add: take_add)
  then show ?case
    using Suc by (simp add: add.commute)
qed

lemma pages_cover:
  assumes page: "\<And>k. pg xs \<lparr>Offset = int k * L, Limit = L\<rparr> = Some (take (nat L) (drop (k * nat L) xs))"
    and n: "int (length xs) \<le> int n * L" and L: "0 < L"
  shows "map_option concat (those (map (\<lambda>k. pg xs \<lparr>Offset = int k * L, Limit = L\<rparr>) [0..<n])) = Some xs"
proof -
  have "int (n * nat L) = int n * L"
    using L by simp
  then have "int (length xs) \<le> int (n * nat L)"
    using n by (simp only:)
  then have "length xs \<le> n * nat L"
    by (simp only: of_nat_le_iff)
  then have "take (n * nat L) xs = xs"
    by simp
  then show ?thesis
    by (simp add: page those_map_Some concat_windows)
qed

lemma paginateSpans_every_page:
  assumes "0 < L" "L < 2 ^ 63" "length xs \<le> 2 ^ 62"
  shows "paginateSpans xs \<lparr>Offset = int k * L, Limit = L\<rparr> = Some (take (nat L) (drop (k * nat L) xs))"
proof (cases "int k * L < int (length xs)")
  case True
  have "nat (int k * L) = k * nat L"
    using assms(1) by (simp add: nat_mult_distrib)
  then show ?thesis
    using paginateSpans_page [of "int k * L" L xs] page_offset_fits [OF assms True] assms(1) True
    by simp
next
  case False
  have "int (k * nat L) = int k * L"
    using assms(1) by simp
  then have "int (length xs) \<le> int (k * nat L)"
    using False by (simp only: not_less)
  then have "length xs \<le> k * nat L"
    by (simp only: of_nat_le_iff)
  then show ?thesis
    using False by (simp add: paginateSpans_beyond)
qed

lemma paginateLogs_every_page:
  assumes "0 < L" "L < 2 ^ 63" "length xs \<le> 2 ^ 62"
  shows "paginateLogs xs \<lparr>Offset = int k * L, Limit = L\<rparr> = Some (take (nat L) (drop (k * nat L) xs))"
proof (cases "int k * L < int (length xs)")
  case True
  have "nat (int k * L) = k * nat L"
    using assms(1) by (simp add: nat_mult_distrib)
  then show ?thesis
    using paginateLogs_page [of "int k * L" L xs] page_offset_fits [OF assms True] assms(1) True
    by simp
next
  case False
  have "int (k * nat L) = int k * L"
    using assms(1) by simp
  then have "int (length xs) \<le> int (k * nat L)"
    using False by (simp only: not_less)
  then have "length xs \<le> k * nat L"
    by (simp only: of_nat_le_iff)
  then show ?thesis
    using False by (simp add: paginateLogs_beyond)
qed

text \<open>
  C6. For a limit \<open>L > 0\<close> (a Go \<^verbatim>\<open>int\<close>, so below \<open>2^63\<close>) and a slice of at most \<open>2^62\<close>
  records (a Go slice of pointers cannot be longer), the pages at the offsets
  \<open>0, L, 2L, \<dots>, (n - 1) L\<close> are all returned, and once \<open>n L\<close> reaches the length their
  concatenation is the slice, in order; a page at an offset at or beyond the length is the
  empty slice. This holds of \<^verbatim>\<open>paginateSpans\<close> and of \<^verbatim>\<open>paginateLogs\<close>.
\<close>

theorem pagination_totality:
  assumes "0 < L" "L < 2 ^ 63" "length spans \<le> 2 ^ 62" "length logs \<le> 2 ^ 62"
    and "int (length spans) \<le> int n * L" "int (length logs) \<le> int n * L"
  shows "map_option concat
           (those (map (\<lambda>k. paginateSpans spans \<lparr>Offset = int k * L, Limit = L\<rparr>) [0..<n])) =
           Some spans \<and>
         map_option concat
           (those (map (\<lambda>k. paginateLogs logs \<lparr>Offset = int k * L, Limit = L\<rparr>) [0..<n])) =
           Some logs \<and>
         (\<forall>off. int (length spans) \<le> off \<longrightarrow>
            paginateSpans spans \<lparr>Offset = off, Limit = L\<rparr> = Some []) \<and>
         (\<forall>off. int (length logs) \<le> off \<longrightarrow>
            paginateLogs logs \<lparr>Offset = off, Limit = L\<rparr> = Some [])"
  using pages_cover [of paginateSpans spans L n, OF paginateSpans_every_page [OF assms(1,2,3)] assms(5,1)]
    pages_cover [of paginateLogs logs L n, OF paginateLogs_every_page [OF assms(1,2,4)] assms(6,1)]
    paginateSpans_beyond paginateLogs_beyond
  by blast

theorem pagination_totality_witness:
  "(0::int) < 2 \<and>
   paginateSpans threeSpans \<lparr>Offset = 0, Limit = 2\<rparr> =
     Some [exampleSpan ''front'' ''a'' ''01'' [] 1, exampleSpan ''back'' ''b'' ''02'' [] 2] \<and>
   paginateSpans threeSpans \<lparr>Offset = 2, Limit = 2\<rparr> =
     Some [exampleSpan ''db'' ''c'' ''03'' [] 3] \<and>
   paginateSpans threeSpans \<lparr>Offset = 4, Limit = 2\<rparr> = Some [] \<and>
   map_option concat
     (those (map (\<lambda>k. paginateSpans threeSpans \<lparr>Offset = int k * 2, Limit = 2\<rparr>) [0..<2])) =
     Some threeSpans \<and>
   map_option concat
     (those (map (\<lambda>k. paginateLogs [exampleLog ''front'' 9] \<lparr>Offset = int k * 2, Limit = 2\<rparr>)
        [0..<2])) =
     Some [exampleLog ''front'' 9]"
proof -
  have p: "paginateSpans threeSpans \<lparr>Offset = 0, Limit = 2\<rparr> =
     Some [exampleSpan ''front'' ''a'' ''01'' [] 1, exampleSpan ''back'' ''b'' ''02'' [] 2]"
    "paginateSpans threeSpans \<lparr>Offset = 2, Limit = 2\<rparr> =
     Some [exampleSpan ''db'' ''c'' ''03'' [] 3]"
    "paginateSpans threeSpans \<lparr>Offset = 4, Limit = 2\<rparr> = Some []"
    by (simp_all add: paginateSpans_def threeSpans_def int64_def goSlice_def Let_def)
  have h: "(0::int) < 2" "(2::int) < 2 ^ 63" "length threeSpans \<le> 2 ^ 62"
    "length [exampleLog ''front'' 9] \<le> 2 ^ 62"
    "int (length threeSpans) \<le> int 2 * 2" "int (length [exampleLog ''front'' 9]) \<le> int 2 * 2"
    by (simp_all add: threeSpans_def)
  show ?thesis
    using p h(1) pagination_totality [OF h] by simp
qed

section \<open>Re-applying a trace filter\<close>

lemma paginateSpans_first_page:
  assumes "Offset pg = 0"
  shows "paginateSpans xs pg =
     (if xs = [] then Some []
      else if 0 \<le> int64 (Limit pg) then Some (take (nat (int64 (Limit pg))) xs)
      else None)"
proof (cases "xs = []")
  case True
  then show ?thesis using assms by (simp add: paginateSpans_def)
next
  case False
  then have len: "\<not> 0 \<ge> int (length xs)" by simp
  show ?thesis
  proof (cases "int64 (Limit pg) > int (length xs)")
    case True
    then show ?thesis
      using assms False len by (simp add: paginateSpans_def Let_def goSlice_def)
  next
    case False
    then show ?thesis
      using assms \<open>xs \<noteq> []\<close> len by (simp add: paginateSpans_def Let_def goSlice_def)
  qed
qed

lemma sortSpans_sorted_id:
  "sorted_wrt (\<lambda>a b. \<not> sortTest sortBy sortOrder a b) xs \<Longrightarrow> sortSpans xs sortBy sortOrder = xs"
  by (simp add: sortSpans_swapLoop swapLoopOuter_id)

lemma sortSpans_take_id:
  "sortSpans (take n (sortSpans xs sortBy sortOrder)) sortBy sortOrder =
     take n (sortSpans xs sortBy sortOrder)"
  by (rule sortSpans_sorted_id) (rule sorted_wrt_take [OF sorted_sortSpans])

lemma filter_take_sortSpans_id:
  "filter P (take n (sortSpans (filter P xs) sortBy sortOrder)) =
     take n (sortSpans (filter P xs) sortBy sortOrder)"
proof -
  have st: "set (sortSpans (filter P xs) sortBy sortOrder) = set (filter P xs)"
    using mset_sortSpans [of "filter P xs" sortBy sortOrder] by (metis set_mset_mset)
  have "P x" if "x \<in> set (take n (sortSpans (filter P xs) sortBy sortOrder))" for x
  proof -
    have "x \<in> set (sortSpans (filter P xs) sortBy sortOrder)"
      using that by (rule in_set_takeD)
    then have "x \<in> set (filter P xs)"
      by (simp only: st)
    then show ?thesis
      by simp
  qed
  then show ?thesis
    by (intro filter_True ballI)
qed

lemma FilterSpans_first_page:
  assumes "Offset (Pagination params) = 0"
  shows "FilterSpans lib spans params = None \<or>
         (\<exists>n. FilterSpans lib spans params =
                Some (take n (sortSpans (filter (\<lambda>span. matchesSpanFilters lib span params) spans)
                               (SortBy params) (SortOrder params))))"
proof -
  let ?T = "sortSpans (filter (\<lambda>span. matchesSpanFilters lib span params) spans)
              (SortBy params) (SortOrder params)"
  have "FilterSpans lib spans params = paginateSpans ?T (Pagination params)"
    by (simp add: FilterSpans_def Let_def)
  also have "\<dots> = (if ?T = [] then Some []
      else if 0 \<le> int64 (Limit (Pagination params))
      then Some (take (nat (int64 (Limit (Pagination params)))) ?T)
      else None)"
    by (rule paginateSpans_first_page [OF assms])
  finally have eq: "FilterSpans lib spans params = (if ?T = [] then Some []
      else if 0 \<le> int64 (Limit (Pagination params))
      then Some (take (nat (int64 (Limit (Pagination params)))) ?T)
      else None)" .
  show ?thesis
  proof (cases "?T = []")
    case True
    then have "FilterSpans lib spans params = Some (take 0 ?T)" using eq by simp
    then show ?thesis by blast
  next
    case False
    then show ?thesis using eq by (cases "0 \<le> int64 (Limit (Pagination params))") auto
  qed
qed

lemma FilterSpans_fixed_point:
  assumes off: "Offset (Pagination params) = 0"
    and r: "FilterSpans lib spans params = Some r"
  shows "FilterSpans lib r params = Some r"
proof -
  let ?P = "\<lambda>span. matchesSpanFilters lib span params"
  let ?T = "sortSpans (filter ?P spans) (SortBy params) (SortOrder params)"
  let ?e = "int64 (Limit (Pagination params))"
  have first: "FilterSpans lib spans params = paginateSpans ?T (Pagination params)"
    by (simp add: FilterSpans_def Let_def)
  obtain n where n: "r = take n ?T" and ne: "r \<noteq> [] \<longrightarrow> 0 \<le> ?e \<and> take (nat ?e) r = r"
  proof (cases "?T = []")
    case True
    then have "r = take 0 ?T" using r first paginateSpans_first_page [OF off, of ?T] by simp
    moreover have "r = []" using calculation by simp
    ultimately show ?thesis using that by blast
  next
    case False
    then have p: "0 \<le> ?e" "r = take (nat ?e) ?T"
      using r first paginateSpans_first_page [OF off, of ?T]
      by (auto split: if_splits)
    then have "take (nat ?e) r = r" by simp
    then show ?thesis using that p by blast
  qed
  have f: "filter ?P r = r"
    unfolding n by (rule filter_take_sortSpans_id)
  have s: "sortSpans r (SortBy params) (SortOrder params) = r"
    unfolding n by (rule sortSpans_take_id)
  have "FilterSpans lib r params = paginateSpans r (Pagination params)"
    by (simp add: FilterSpans_def Let_def f s)
  also have "\<dots> = Some r"
    using paginateSpans_first_page [OF off, of r] ne by auto
  finally show ?thesis .
qed

lemma FilterSpans_returns:
  assumes "0 \<le> Offset (Pagination params)" "0 \<le> Limit (Pagination params)"
    "Offset (Pagination params) + Limit (Pagination params) < 2 ^ 63"
  shows "FilterSpans lib spans params \<noteq> None"
proof -
  let ?T = "sortSpans (filter (\<lambda>span. matchesSpanFilters lib span params) spans)
              (SortBy params) (SortOrder params)"
  have i: "int64 (Offset (Pagination params) + Limit (Pagination params)) =
           Offset (Pagination params) + Limit (Pagination params)"
    using assms by (intro int64_id) (simp add: inInt64_def)
  have "paginateSpans ?T (Pagination params) \<noteq> None"
    using assms by (simp add: paginateSpans_def Let_def goSlice_def i)
  then show ?thesis
    by (simp add: FilterSpans_def Let_def)
qed

text \<open>
  C5 as amended. When the pagination offset is 0, the result of \<^verbatim>\<open>FilterSpans\<close>, if it
  returns one, is a fixed point of \<^verbatim>\<open>FilterSpans\<close> with the same descriptor; and it does
  return one when the limit is a non-negative \<^verbatim>\<open>int\<close>.
\<close>

theorem FilterSpans_idempotent_at_offset_zero:
  "Offset (Pagination params) = 0 \<Longrightarrow>
   (case FilterSpans lib spans params of
      None \<Rightarrow> True
    | Some r \<Rightarrow> FilterSpans lib r params = Some r) \<and>
   (if 0 \<le> Limit (Pagination params) \<and> Limit (Pagination params) < 2 ^ 63
    then FilterSpans lib spans params \<noteq> None else True)"
proof -
  assume off: "Offset (Pagination params) = 0"
  have a: "(case FilterSpans lib spans params of
      None \<Rightarrow> True
    | Some r \<Rightarrow> FilterSpans lib r params = Some r)"
  proof (cases "FilterSpans lib spans params")
    case None
    then show ?thesis by simp
  next
    case (Some r)
    then show ?thesis using FilterSpans_fixed_point [OF off Some] by simp
  qed
  have b: "FilterSpans lib spans params \<noteq> None"
    if "0 \<le> Limit (Pagination params)" "Limit (Pagination params) < 2 ^ 63"
    using that off by (intro FilterSpans_returns) simp_all
  show ?thesis
    using a b by (simp only: split: if_split) blast
qed

lemma FilterSpans_three_first_page:
  "FilterSpans testLib threeSpans (exampleParams 0 2) =
     Some [exampleSpan ''db'' ''c'' ''03'' [] 3, exampleSpan ''back'' ''b'' ''02'' [] 2]"
  by (simp add: FilterSpans_def matchesSpanFilters_def exampleParams_def noTimeRange_def
        threeSpans_def sortSpans_def sortSpansByTime_def swapLoopOuter.simps
        swapLoopInner.simps Before_def After_def paginateSpans_def int64_def goSlice_def
        exampleSpan_def Let_def)

theorem FilterSpans_idempotent_at_offset_zero_witness:
  "Offset (Pagination (exampleParams 0 2)) = 0 \<and>
   FilterSpans testLib threeSpans (exampleParams 0 2) =
     Some [exampleSpan ''db'' ''c'' ''03'' [] 3, exampleSpan ''back'' ''b'' ''02'' [] 2] \<and>
   FilterSpans testLib
     [exampleSpan ''db'' ''c'' ''03'' [] 3, exampleSpan ''back'' ''b'' ''02'' [] 2]
     (exampleParams 0 2) =
     Some [exampleSpan ''db'' ''c'' ''03'' [] 3, exampleSpan ''back'' ''b'' ''02'' [] 2]"
proof -
  have off: "Offset (Pagination (exampleParams 0 2)) = 0"
    by (simp add: exampleParams_def)
  show ?thesis
    using off FilterSpans_three_first_page
      FilterSpans_idempotent_at_offset_zero [OF off, of testLib threeSpans]
    by simp
qed

text \<open>
  C5 as stated fails for a positive offset. With offset 1 and three spans that all match,
  the result holds the two spans received earlier; filtering that result again drops one
  more span. The descriptor is the one parsed from the query \<^verbatim>\<open>offset=1\<close>.
\<close>

lemma parse_offset_one:
  "ParseTraceFilterParams testLib (Map.empty(''offset'' \<mapsto> [''1''])) = exampleParams 1 100"
  by (simp add: ParseTraceFilterParams_def ParseTimeRangeParams_def parseTimeValue_def
        parseDurationMs_def ParsePaginationParams_def Values_Get_def strconv_Atoi_def
        strconv_ParseInt_def isDigit_def inInt64_def strings_ToLower_def isASCII_def
        exampleParams_def noTimeRange_def Let_def)

lemma FilterSpans_three_offset_one:
  "FilterSpans testLib threeSpans (exampleParams 1 100) =
     Some [exampleSpan ''back'' ''b'' ''02'' [] 2, exampleSpan ''front'' ''a'' ''01'' [] 1]"
  by (simp add: FilterSpans_def matchesSpanFilters_def exampleParams_def noTimeRange_def
        threeSpans_def sortSpans_def sortSpansByTime_def swapLoopOuter.simps
        swapLoopInner.simps Before_def After_def paginateSpans_def int64_def goSlice_def
        exampleSpan_def Let_def)

lemma FilterSpans_two_offset_one:
  "FilterSpans testLib
     [exampleSpan ''back'' ''b'' ''02'' [] 2, exampleSpan ''front'' ''a'' ''01'' [] 1]
     (exampleParams 1 100) =
     Some [exampleSpan ''front'' ''a'' ''01'' [] 1]"
  by (simp add: FilterSpans_def matchesSpanFilters_def exampleParams_def noTimeRange_def
        sortSpans_def sortSpansByTime_def swapLoopOuter.simps
        swapLoopInner.simps Before_def After_def paginateSpans_def int64_def goSlice_def
        exampleSpan_def Let_def)

theorem FilterSpans_idempotence_counterexample:
  "FilterSpans testLib threeSpans (exampleParams 1 100) =
     Some [exampleSpan ''back'' ''b'' ''02'' [] 2, exampleSpan ''front'' ''a'' ''01'' [] 1] \<and>
   FilterSpans testLib
     [exampleSpan ''back'' ''b'' ''02'' [] 2, exampleSpan ''front'' ''a'' ''01'' [] 1]
     (exampleParams 1 100) =
     Some [exampleSpan ''front'' ''a'' ''01'' [] 1] \<and>
   [exampleSpan ''front'' ''a'' ''01'' [] 1] \<noteq>
     [exampleSpan ''back'' ''b'' ''02'' [] 2, exampleSpan ''front'' ''a'' ''01'' [] 1]"
  using FilterSpans_three_offset_one FilterSpans_two_offset_one by simp

section \<open>Headers of the trace list\<close>

lemma parse_limit_two:
  "ParseTraceFilterParams testLib (Map.empty(''limit'' \<mapsto> [''2''])) = exampleParams 0 2"
  by (simp add: ParseTraceFilterParams_def ParseTimeRangeParams_def parseTimeValue_def
        parseDurationMs_def ParsePaginationParams_def Values_Get_def strconv_Atoi_def
        strconv_ParseInt_def isDigit_def inInt64_def strings_ToLower_def isASCII_def
        exampleParams_def noTimeRange_def Let_def)

lemma all_three_match:
  "filter (\<lambda>span. matchesSpanFilters testLib span (exampleParams 0 2)) threeSpans = threeSpans"
  by (simp add: matchesSpanFilters_def exampleParams_def noTimeRange_def threeSpans_def)

lemma handleGetTraces_counts:
  "handleGetTraces lib store q = Some resp \<Longrightarrow>
   XTotalCount resp = int (length (GetSvcSpans store)) \<and>
   XFilteredCount resp = int (length (result resp))"
  by (auto simp add: handleGetTraces_def Let_def split: option.splits)




text \<open>
  C1 at a failing input. The store holds three spans, the query is \<^verbatim>\<open>limit=2\<close>, and no
  predicate is configured, so all three spans satisfy the predicates. \<^verbatim>\<open>X-Total-Count\<close> is
  3, the length of the span slice; \<^verbatim>\<open>X-Filtered-Count\<close> is 2, the length of the page that
  \<^verbatim>\<open>FilterSpans\<close> returns, and not the 3 spans counted before pagination.
\<close>

theorem handleGetTraces_counts_the_page:
  "handleGetTraces testLib (storeOf threeSpans [] []) (Map.empty(''limit'' \<mapsto> [''2''])) =
     Some \<lparr>XTotalCount = 3, XFilteredCount = 2, XOffset = 0, XLimit = 2,
           result = [exampleSpan ''db'' ''c'' ''03'' [] 3, exampleSpan ''back'' ''b'' ''02'' [] 2]\<rparr> \<and>
   length (filter (\<lambda>span. matchesSpanFilters testLib span
                     (ParseTraceFilterParams testLib (Map.empty(''limit'' \<mapsto> [''2'']))))
             threeSpans) = 3"
  unfolding handleGetTraces_def parse_limit_two all_three_match
  by (simp add: storeOf_def storeWith_def FilterSpans_three_first_page Let_def)
     (simp add: threeSpans_def exampleParams_def)

section \<open>The services list\<close>

lemma strings_HasPrefix_iff: "strings_HasPrefix s p \<longleftrightarrow> (\<exists>suf. s = p @ suf)"
  by (induction s p rule: strings_HasPrefix.induct) auto

lemma strings_Contains_iff:
  "strings_Contains s sub \<longleftrightarrow> (\<exists>pre suf. s = pre @ sub @ suf)"
proof (induction s)
  case Nil
  then show ?case by auto
next
  case (Cons c cs)
  have "(\<exists>pre suf. c # cs = pre @ sub @ suf) \<longleftrightarrow>
        (\<exists>suf. c # cs = sub @ suf) \<or> (\<exists>pre suf. cs = pre @ sub @ suf)"
  proof
    assume "\<exists>pre suf. c # cs = pre @ sub @ suf"
    then obtain pre suf where e: "c # cs = pre @ sub @ suf" by blast
    show "(\<exists>suf. c # cs = sub @ suf) \<or> (\<exists>pre suf. cs = pre @ sub @ suf)"
    proof (cases pre)
      case Nil
      then show ?thesis using e by auto
    next
      case (Cons d pre')
      then have "cs = pre' @ sub @ suf" using e by simp
      then show ?thesis by blast
    qed
  next
    assume "(\<exists>suf. c # cs = sub @ suf) \<or> (\<exists>pre suf. cs = pre @ sub @ suf)"
    then show "\<exists>pre suf. c # cs = pre @ sub @ suf"
    proof
      assume "\<exists>suf. c # cs = sub @ suf"
      then obtain suf where "c # cs = [] @ sub @ suf" by auto
      then show ?thesis by blast
    next
      assume "\<exists>pre suf. cs = pre @ sub @ suf"
      then obtain pre suf where "c # cs = (c # pre) @ sub @ suf" by auto
      then show ?thesis by blast
    qed
  qed
  then show ?case
    using Cons by (simp add: strings_HasPrefix_iff)
qed

lemma dom_fold_insert:
  "dom (fold (\<lambda>x m. m(f x \<mapsto> True)) xs m) = dom m \<union> f ` set xs"
  by (induction xs arbitrary: m) auto

lemma dom_fold_keys:
  "dom (fold (\<lambda>service serviceSet. serviceSet(service \<mapsto> True)) xs m) = dom m \<union> set xs"
  by (induction xs arbitrary: m) auto

lemma dom_spanServiceSet:
  "dom (spanServiceSet spans m) = dom m \<union> spanServiceName ` set spans"
  by (simp add: spanServiceSet_def dom_fold_insert)

lemma rangeKeys_singleton:
  assumes "dom m = {k}"
  shows "rangeKeys m ks \<longleftrightarrow> ks = [k]"
proof
  assume r: "rangeKeys m ks"
  then have d: "distinct ks" and s: "set ks = {k}"
    using assms by (simp_all add: rangeKeys_def)
  show "ks = [k]"
  proof (cases ks)
    case Nil
    then show ?thesis using s by simp
  next
    case (Cons a as)
    then have "a = k" "set as \<subseteq> {k}" "a \<notin> set as" using s d by auto
    then have "as = []" by (cases as) auto
    then show ?thesis using Cons \<open>a = k\<close> by simp
  qed
next
  assume "ks = [k]"
  then show "rangeKeys m ks" using assms by (simp add: rangeKeys_def)
qed

text \<open>
  C2 at a failing input. The store holds one span, of a resource without a service name
  (service \<^verbatim>\<open>unknown\<close>), and one log of service \<^verbatim>\<open>billing\<close>. The only answer of
  \<^verbatim>\<open>handleGetServices\<close> is the list with the one name \<^verbatim>\<open>unknown\<close>: it contains a name with
  the substring \<^verbatim>\<open>unknown\<close> and it lacks the service of the log.
\<close>

theorem handleGetServices_spans_only_unfiltered:
  "handleGetServices
     (storeOf [exampleSpan ''unknown'' ''op'' ''01'' [] 1] [] [exampleLog ''billing'' 9]) =
     {[''unknown'']}"
proof -
  have "dom (spanServiceSet [exampleSpan ''unknown'' ''op'' ''01'' [] 1] Map.empty) = {''unknown''}"
    by (simp add: dom_spanServiceSet exampleSpan_def)
  then show ?thesis
    by (simp add: handleGetServices_def storeOf_def storeWith_def rangeKeys_singleton)
qed

text \<open>
  The function \<^verbatim>\<open>getAllServices\<close>, which the handler does not call, returns the union of
  the service names of spans, metrics and logs without the empty name and the names that
  contain \<^verbatim>\<open>unknown\<close>.
\<close>

lemma getAllServices_union_filtered:
  assumes "services \<in> getAllServices store"
  shows "distinct services \<and>
         set services =
           {s \<in> spanServiceName ` set (GetSvcSpans store) \<union>
                 mdServiceName ` set (GetFilteredMetrics store) \<union>
                 ldServiceName ` set (GetFilteredLogs store).
              s \<noteq> [] \<and> \<not> strings_Contains s ''unknown''}"
proof -
  obtain keys byMetrics byLogs where
    s: "services = filter (\<lambda>service. service \<noteq> [] \<and> \<not> strings_Contains service ''unknown'') keys"
    and m: "byMetrics \<in> getServicesByMetrics store" and l: "byLogs \<in> getServicesByLogs store"
    and k: "rangeKeys
          (fold (\<lambda>service serviceSet. serviceSet(service \<mapsto> True)) byLogs
             (fold (\<lambda>service serviceSet. serviceSet(service \<mapsto> True)) byMetrics
                (spanServiceSet (GetSvcSpans store) Map.empty)))
          keys"
    using assms unfolding getAllServices_def by blast
  have sm: "set byMetrics = mdServiceName ` set (GetFilteredMetrics store)"
    using m by (simp add: getServicesByMetrics_def rangeKeys_def dom_fold_insert)
  have sl: "set byLogs = ldServiceName ` set (GetFilteredLogs store)"
    using l by (simp add: getServicesByLogs_def rangeKeys_def dom_fold_insert)
  have "set keys = spanServiceName ` set (GetSvcSpans store) \<union> set byMetrics \<union> set byLogs"
    using k by (simp add: rangeKeys_def dom_spanServiceSet dom_fold_keys)
  moreover have "distinct keys"
    using k by (simp add: rangeKeys_def)
  ultimately show ?thesis
    unfolding s sm sl by auto
qed

section \<open>Responses built by ranging over a map\<close>



















section \<open>The topology\<close>

text \<open>
  The two maps that the loop of \<^verbatim>\<open>buildTopology\<close> builds, for every store: the nodes are
  the services of the spans and of the resolved parents, each with depth 0; the edges are
  \<open>edgesOf\<close> of the witnessed pairs. When no two witnessed pairs share a key, and every span
  of the index is in the span array, there is one node per service of the span array and
  one edge per witnessed pair, whose count is the number of spans that witness it.
\<close>

lemma topologyStep_add:
  "topologyStep cache span (nodes, edges) =
     (case spanEdge cache span of
        None \<Rightarrow> (addNode (spanServiceName span) nodes, edges)
      | Some e \<Rightarrow> (addNode (fst e) (addNode (spanServiceName span) nodes), addEdge e edges))"
proof (cases "spanEdge cache span")
  case None
  then have "parentSpanID span = [] \<or> cache (parentSpanID span) = None \<or>
      (\<exists>parentSpan. cache (parentSpanID span) = Some parentSpan \<and>
         spanServiceName parentSpan = spanServiceName span)"
    by (auto simp add: spanEdge_def split: option.splits if_splits)
  then show ?thesis
    unfolding None topologyStep_def addNode_def
    by (elim disjE exE conjE) (simp_all add: Let_def)
next
  case (Some e)
  then obtain parentSpan where p: "parentSpanID span \<noteq> []"
    "cache (parentSpanID span) = Some parentSpan"
    "spanServiceName parentSpan \<noteq> spanServiceName span"
    "e = (spanServiceName parentSpan, spanServiceName span)"
    by (auto simp add: spanEdge_def split: option.splits if_splits)
  show ?thesis
    unfolding Some topologyStep_def addNode_def addEdge_def edgeKey_def
    by (simp add: Let_def p split: option.splits)
qed

lemma nodesOf_add: "addNode k (nodesOf S) = nodesOf (insert k S)"
  by (auto simp add: addNode_def nodesOf_def fun_eq_iff)

lemma edgesOf_add: "addEdge e (edgesOf ws) = edgesOf (ws @ [e])"
proof (rule ext)
  fix k
  show "addEdge e (edgesOf ws) k = edgesOf (ws @ [e]) k"
  proof (cases "k = edgeKey e")
    case True
    then show ?thesis
      by (cases "filter (\<lambda>x. edgeKey x = edgeKey e) ws") (simp_all add: addEdge_def edgesOf_def)
  next
    case False
    then show ?thesis
      by (cases "filter (\<lambda>x. edgeKey x = edgeKey e) ws") (simp_all add: addEdge_def edgesOf_def)
  qed
qed

lemma topologyStep_maps:
  "topologyStep cache span (nodesOf S, edgesOf ws) =
     (case spanEdge cache span of
        None \<Rightarrow> (nodesOf (insert (spanServiceName span) S), edgesOf ws)
      | Some e \<Rightarrow> (nodesOf (insert (fst e) (insert (spanServiceName span) S)), edgesOf (ws @ [e])))"
  by (simp add: topologyStep_add nodesOf_add edgesOf_add split: option.splits)

lemma fold_topologyStep_maps:
  "fold (topologyStep cache) spans (nodesOf S, edgesOf ws) =
     (nodesOf (S \<union> spanServiceName ` set spans \<union> fst ` set (witnessedEdges cache spans)),
      edgesOf (ws @ witnessedEdges cache spans))"
proof (induction spans arbitrary: S ws)
  case Nil
  then show ?case by (simp add: witnessedEdges_def List.map_filter_simps)
next
  case (Cons span spans)
  show ?case
  proof (cases "spanEdge cache span")
    case None
    then show ?thesis
      using Cons [of "insert (spanServiceName span) S" ws]
      by (simp add: topologyStep_maps witnessedEdges_def List.map_filter_simps)
  next
    case (Some e)
    have "insert (fst e) (insert (spanServiceName span) S) \<union> spanServiceName ` set spans \<union>
            fst ` set (List.map_filter (spanEdge cache) spans) =
          S \<union> insert (spanServiceName span) (spanServiceName ` set spans) \<union>
            insert (fst e) (fst ` set (List.map_filter (spanEdge cache) spans))"
      by auto
    then show ?thesis
      using Cons [of "insert (fst e) (insert (spanServiceName span) S)" "ws @ [e]"] Some
      by (simp add: topologyStep_maps witnessedEdges_def List.map_filter_simps)
  qed
qed

lemma topologyMaps_characterised:
  "topologyMaps store =
     (nodesOf (spanServiceName ` set (GetSvcSpans store) \<union>
               fst ` set (witnessedEdges (GetSpanByID store) (GetSvcSpans store))),
      edgesOf (witnessedEdges (GetSpanByID store) (GetSvcSpans store)))"
proof -
  have e: "(Map.empty, Map.empty) = (nodesOf {}, edgesOf [])"
    by (simp add: nodesOf_def edgesOf_def fun_eq_iff)
  show ?thesis
    unfolding topologyMaps_def e fold_topologyStep_maps by simp
qed


lemma filter_eq_replicate: "filter (\<lambda>x. x = e) ws = replicate (count_list ws e) e"
  by (induction ws) simp_all

lemma edgesOf_injective:
  assumes "inj_on edgeKey (set ws)" "e \<in> set ws"
  shows "edgesOf ws (edgeKey e) =
           Some \<lparr>Source = fst e, Target = snd e, Count = int (count_list ws e)\<rparr>"
proof -
  have "filter (\<lambda>x. edgeKey x = edgeKey e) ws = filter (\<lambda>x. x = e) ws"
    using assms by (intro filter_cong refl) (auto dest: inj_onD)
  then have f: "filter (\<lambda>x. edgeKey x = edgeKey e) ws = replicate (count_list ws e) e"
    by (simp only: filter_eq_replicate)
  have "count_list ws e \<noteq> 0"
    using assms(2) by (simp only: count_list_0_iff) simp
  then obtain n where n: "count_list ws e = Suc n"
    by (cases "count_list ws e") simp_all
  show ?thesis
    unfolding edgesOf_def f n by simp
qed

lemma dom_edgesOf: "dom (edgesOf ws) = edgeKey ` set ws"
proof -
  have "edgesOf ws k \<noteq> None \<longleftrightarrow> k \<in> edgeKey ` set ws" for k
  proof -
    have "filter (\<lambda>e. edgeKey e = k) ws \<noteq> [] \<longleftrightarrow> (\<exists>e \<in> set ws. edgeKey e = k)"
      by (simp add: filter_empty_conv)
    then show ?thesis
      by (cases "filter (\<lambda>e. edgeKey e = k) ws") (auto simp add: edgesOf_def)
  qed
  then show ?thesis
    by (auto simp add: dom_def)
qed

lemma topology_without_key_collision:
  assumes inj: "inj_on edgeKey (set (witnessedEdges (GetSpanByID store) (GetSvcSpans store)))"
    and idx: "\<And>sid parentSpan. GetSpanByID store sid = Some parentSpan \<Longrightarrow>
                parentSpan \<in> set (GetSvcSpans store)"
  shows "fst (topologyMaps store) = nodesOf (spanServiceName ` set (GetSvcSpans store))"
    and "dom (snd (topologyMaps store)) =
           edgeKey ` set (witnessedEdges (GetSpanByID store) (GetSvcSpans store))"
    and "e \<in> set (witnessedEdges (GetSpanByID store) (GetSvcSpans store)) \<Longrightarrow>
         snd (topologyMaps store) (edgeKey e) =
           Some \<lparr>Source = fst e, Target = snd e,
                 Count = int (count_list (witnessedEdges (GetSpanByID store) (GetSvcSpans store)) e)\<rparr>"
proof -
  let ?ws = "witnessedEdges (GetSpanByID store) (GetSvcSpans store)"
  have "fst ` set ?ws \<subseteq> spanServiceName ` set (GetSvcSpans store)"
  proof
    fix p assume "p \<in> fst ` set ?ws"
    then obtain span c where "span \<in> set (GetSvcSpans store)"
      "spanEdge (GetSpanByID store) span = Some (p, c)"
      by (auto simp add: witnessedEdges_def List.map_filter_def)
    then obtain parentSpan where "GetSpanByID store (parentSpanID span) = Some parentSpan"
      "p = spanServiceName parentSpan"
      by (auto simp add: spanEdge_def split: if_splits option.splits)
    then show "p \<in> spanServiceName ` set (GetSvcSpans store)"
      using idx by blast
  qed
  then have "spanServiceName ` set (GetSvcSpans store) \<union> fst ` set ?ws =
             spanServiceName ` set (GetSvcSpans store)"
    by blast
  then show "fst (topologyMaps store) = nodesOf (spanServiceName ` set (GetSvcSpans store))"
    by (simp add: topologyMaps_characterised)
  show "dom (snd (topologyMaps store)) = edgeKey ` set ?ws"
    by (simp add: topologyMaps_characterised dom_edgesOf)
  show "snd (topologyMaps store) (edgeKey e) =
           Some \<lparr>Source = fst e, Target = snd e, Count = int (count_list ?ws e)\<rparr>"
    if "e \<in> set ?ws"
    using edgesOf_injective [OF inj that] by (simp add: topologyMaps_characterised)
qed

text \<open>
  C7 at a failing input. The edge key is the concatenation of the parent service,
  \<^verbatim>\<open>"->"\<close> and the child service, so the pairs (\<^verbatim>\<open>a->b\<close>, \<^verbatim>\<open>c\<close>) and (\<^verbatim>\<open>a\<close>, \<^verbatim>\<open>b->c\<close>) have the
  same key \<^verbatim>\<open>a->b->c\<close>. On the four spans of \<open>collisionSpans\<close> the edge map holds one edge,
  from \<^verbatim>\<open>a->b\<close> to \<^verbatim>\<open>c\<close> with count 2, and no edge from \<^verbatim>\<open>a\<close> to \<^verbatim>\<open>b->c\<close>; the node map has
  the four services.
\<close>

theorem buildTopology_merges_colliding_edge_keys:
  "snd (topologyMaps (storeOf collisionSpans [] [])) =
     Map.empty(''a->b->c'' \<mapsto> \<lparr>Source = ''a->b'', Target = ''c'', Count = 2\<rparr>) \<and>
   dom (fst (topologyMaps (storeOf collisionSpans [] []))) = {''a->b'', ''c'', ''a'', ''b->c''}"
  by (auto simp add: topologyMaps_def storeOf_def storeWith_def collisionSpans_def topologyStep_def
        exampleSpan_def Let_def)

section \<open>Two stores fed the same batches\<close>

subsection \<open>Two clocks with the same readings\<close>










subsection \<open>The caps\<close>







lemma accessors_GetSpansByTraceID:
  "GetSpansByTraceID (accessors lib st) traceID =
     (if filter (\<lambda>span. spanTraceID span = traceID) (stSpans st) = [] then None
      else Some (filter (\<lambda>span. spanTraceID span = traceID) (stSpans st)))"
  by (simp add: accessors_def storeWith_def split: list.splits)


subsection \<open>No handler panics\<close>






subsection \<open>Every route answers, and two answers agree up to order\<close>





subsection \<open>What the three handlers that range over a map answer\<close>

















end
